theory Spec2Isabelle
  imports Complex_Main "HOL-Library.Log_Nat"
begin

section \<open>Double-precision arithmetic used by the service\<close>

text \<open>
  \<^verbatim>\<open>main.py\<close> computes three quantities in Python floats (IEEE-754 binary64):
  the downsampling ratio \<^verbatim>\<open>max_size / max(image.size)\<close> with the products
  \<^verbatim>\<open>dim * ratio\<close>, the validator's \<^verbatim>\<open>transparent_ratio\<close>, and
  \<^verbatim>\<open>file_size_mb\<close>. Each operation returns the double nearest to the exact result,
  ties going to the even significand. \<open>float64 x\<close> is that double, as a real number, for
  every \<open>x\<close> in the normal range (no overflow, no subnormals), which is where all
  quantities of the service lie.
\<close>

definition round_half_even :: "real \<Rightarrow> int" where
  "round_half_even x =
     (let f = \<lfloor>x\<rfloor>; d = x - of_int f
      in if d < 1/2 then f else if 1/2 < d then f + 1 else if even f then f else f + 1)"

text \<open>The binary exponent of a positive real: \<open>2 powi binexp x \<le> x < 2 powi (binexp x + 1)\<close>.\<close>

definition binexp :: "real \<Rightarrow> int" where
  "binexp x = (if 1 \<le> x then bitlen \<lfloor>x\<rfloor> - 1 else - bitlen (\<lceil>1 / x\<rceil> - 1))"

definition float64 :: "real \<Rightarrow> real" where
  "float64 x =
     (if x = 0 then 0
      else let e = binexp \<bar>x\<bar> - 52
           in sgn x * of_int (round_half_even (\<bar>x\<bar> / 2 powi e)) * 2 powi e)"

text \<open>Python's \<^verbatim>\<open>int(x)\<close> on a float truncates towards zero.\<close>

definition py_int :: "real \<Rightarrow> int" where
  "py_int x = (if 0 \<le> x then \<lfloor>x\<rfloor> else \<lceil>x\<rceil>)"

text \<open>\<^verbatim>\<open>a / b\<close> on two Python ints (true division), and \<^verbatim>\<open>n * x\<close> for an int and a float.\<close>

definition py_truediv :: "nat \<Rightarrow> nat \<Rightarrow> real" where
  "py_truediv a b = float64 (real a / real b)"

definition py_mul :: "nat \<Rightarrow> real \<Rightarrow> real" where
  "py_mul n x = float64 (real n * x)"


section \<open>Images and the imaging library\<close>

text \<open>
  A decoded Pillow image: \<^verbatim>\<open>image.size\<close> is \<open>(width, height)\<close>, \<^verbatim>\<open>image.mode\<close> the
  colour mode string, \<open>transparency\<close> says whether \<^verbatim>\<open>'transparency' in image.info\<close>,
  and \<open>bands\<close> is what \<^verbatim>\<open>image.split()\<close> returns, one list of pixel values per channel.
\<close>

type_synonym band = "nat list"

record image =
  width :: nat
  height :: nat
  mode :: string
  transparency :: bool
  bands :: "band list"

definition size_of :: "image \<Rightarrow> int \<times> int" where
  "size_of im = (int (width im), int (height im))"

text \<open>
  An exception is either FastAPI's \<^verbatim>\<open>HTTPException(status_code, detail)\<close> or any other
  \<^verbatim>\<open>Exception\<close>, of which only \<^verbatim>\<open>str(e)\<close> is ever used.
\<close>

datatype exn = HTTPException nat string | Error string

type_synonym session = nat

record params =
  model :: string
  alpha_matting :: bool
  alpha_matting_foreground_threshold :: int
  alpha_matting_background_threshold :: int
  alpha_matting_erode_size :: int
  post_process_mask :: bool

text \<open>
  What has happened in the process so far: model loads (\<^verbatim>\<open>new_session\<close>), inference calls
  (\<^verbatim>\<open>remove\<close>, with the session it was given, \<open>None\<close> when the argument is omitted) and
  applications of \<^verbatim>\<open>validate_result\<close>.
\<close>

datatype event = Load string | Infer "session option" | Validate image

text \<open>
  The external collaborators. The segmentation library may answer differently from one call
  to the next (that is what the retries are for), so its two entry points see the history;
  \<open>Inl\<close> carries the message of the exception raised. What Pillow computes is a
  parameter as well: the pixel data of a resampled or blurred band; for a mode conversion,
  whether it is supported and, if so, the pixel data and whether the result's \<^verbatim>\<open>info\<close>
  still has a transparency entry; the image decoded from the uploaded bytes and its
  \<^verbatim>\<open>format\<close> tag; the bytes \<^verbatim>\<open>image.save(buffer, format=...)\<close> writes, or the exception
  it raises. So are the formatting of a float with one decimal and the message of the
  \<^verbatim>\<open>UnicodeEncodeError\<close> for a header value.
\<close>

record env =
  rembg_new_session :: "event list \<Rightarrow> string \<Rightarrow> string + session"
  rembg_remove :: "event list \<Rightarrow> image \<Rightarrow> session option \<Rightarrow> params \<Rightarrow> string + image"
  lanczos :: "int \<times> int \<Rightarrow> image \<Rightarrow> band list"
  pil_convert :: "image \<Rightarrow> string \<Rightarrow> string + bool \<times> band list"
  gaussian_blur :: "real \<Rightarrow> band \<Rightarrow> band"
  pil_open :: "nat list \<Rightarrow> string + image"
  pil_format :: "nat list \<Rightarrow> string option"
  pil_save :: "image \<Rightarrow> string \<Rightarrow> string + nat list"
  format_1f :: "real \<Rightarrow> string"
  str_encode_error :: "nat list \<Rightarrow> string"

text \<open>
  \<^verbatim>\<open>image.convert(m)\<close>: Pillow raises \<^verbatim>\<open>ValueError\<close> for a conversion it does not
  support; otherwise the result has the same size, mode \<open>m\<close>, the converted pixel data
  and the transparency entry the library leaves it.
\<close>

definition convert :: "env \<Rightarrow> image \<Rightarrow> string \<Rightarrow> exn + image" where
  "convert env im m =
     (case pil_convert env im m of
        Inl e \<Rightarrow> Inl (Error e)
      | Inr (t, bs) \<Rightarrow> Inr (im\<lparr>mode := m, transparency := t, bands := bs\<rparr>))"

text \<open>
  \<^verbatim>\<open>image.resize(size, Image.Resampling.LANCZOS)\<close>: Pillow returns a copy when the size is
  the image's own, raises \<^verbatim>\<open>ValueError("height and width must be > 0")\<close> when a requested
  dimension is below 1, and otherwise returns an image of exactly the requested size.
\<close>

definition resize :: "env \<Rightarrow> image \<Rightarrow> int \<times> int \<Rightarrow> exn + image" where
  "resize env im sz =
     (if size_of im = sz then Inr im
      else if fst sz < 1 \<or> snd sz < 1 then Inl (Error ''height and width must be > 0'')
      else Inr (im\<lparr>width := nat (fst sz), height := nat (snd sz), bands := lanczos env sz im\<rparr>))"


section \<open>The session cache\<close>

record state =
  MODEL_SESSIONS :: "string \<rightharpoonup> session"
  trace :: "event list"

definition record_event :: "event \<Rightarrow> state \<Rightarrow> state" where
  "record_event ev st = st\<lparr>trace := trace st @ [ev]\<rparr>"

text \<open>
  \<^verbatim>\<open>get_model_session\<close>: a miss calls the loader (the 60 second alarm is one more way for it
  to raise); a loader exception is logged and re-raised with nothing stored.
\<close>

definition get_model_session :: "env \<Rightarrow> string \<Rightarrow> state \<Rightarrow> (string + session) \<times> state" where
  "get_model_session env model_name st =
     (case MODEL_SESSIONS st model_name of
        None \<Rightarrow>
          (case rembg_new_session env (trace st) model_name of
             Inl e \<Rightarrow> (Inl e, record_event (Load model_name) st)
           | Inr s \<Rightarrow>
               (Inr s, record_event (Load model_name)
                          (st\<lparr>MODEL_SESSIONS := (MODEL_SESSIONS st)(model_name \<mapsto> s)\<rparr>)))
      | Some s \<Rightarrow> (Inr s, st))"


section \<open>Pre-processing, post-processing, validation\<close>

text \<open>The block under \<^verbatim>\<open># Convert to RGB if needed (handle all color modes)\<close>.\<close>

definition convert_if_needed :: "env \<Rightarrow> image \<Rightarrow> exn + image" where
  "convert_if_needed env im =
     (if mode im \<notin> {''RGB'', ''RGBA''}
      then (if mode im = ''P'' \<and> transparency im
            then convert env im ''RGBA''
            else convert env im ''RGB'')
      else Inr im)"

definition preprocess_image :: "env \<Rightarrow> image \<Rightarrow> nat \<Rightarrow> exn + (image \<times> (int \<times> int))" where
  "preprocess_image env image0 max_size =
     (let original_size = size_of image0
      in case convert_if_needed env image0 of
           Inl e \<Rightarrow> Inl e
         | Inr image1 \<Rightarrow>
             if max (width image1) (height image1) > max_size
             then (let ratio = py_truediv max_size (max (width image1) (height image1));
                       new_size = (py_int (py_mul (width image1) ratio),
                                   py_int (py_mul (height image1) ratio))
                   in case resize env image1 new_size of
                        Inl e \<Rightarrow> Inl e
                      | Inr image2 \<Rightarrow> Inr (image2, original_size))
             else Inr (image1, original_size))"

text \<open>
  \<^verbatim>\<open>r, g, b, a = image.split()\<close> unpacks exactly four bands; \<^verbatim>\<open>Image.merge\<close> builds a
  fresh image (no metadata) from them.
\<close>

definition refine_edges :: "env \<Rightarrow> image \<Rightarrow> exn + image" where
  "refine_edges env im =
     (if mode im = ''RGBA''
      then (case bands im of
              [r, g, b, a] \<Rightarrow>
                Inr \<lparr>width = width im, height = height im, mode = ''RGBA'',
                     transparency = False,
                     bands = [r, g, b, gaussian_blur env (1/2) a]\<rparr>
            | _ \<Rightarrow> Inl (Error ''not enough values to unpack''))
      else Inr im)"

definition postprocess_image :: "env \<Rightarrow> image \<Rightarrow> int \<times> int \<Rightarrow> bool \<Rightarrow> exn + image" where
  "postprocess_image env image0 original_size refine =
     (case (if size_of image0 \<noteq> original_size then resize env image0 original_size
            else Inr image0) of
        Inl e \<Rightarrow> Inl e
      | Inr image1 \<Rightarrow> if refine then refine_edges env image1 else Inr image1)"

text \<open>
  The body of the \<^verbatim>\<open>try\<close> in \<^verbatim>\<open>validate_result\<close>. \<^verbatim>\<open>processed.split()[3]\<close> is an
  indexed read and raises when there is no fourth band; \<^verbatim>\<open>0.95\<close> is the double nearest
  to 95/100.
\<close>

definition validate_checks :: "image \<Rightarrow> string + bool" where
  "validate_checks processed =
     (if mode processed \<noteq> ''RGBA'' then Inr False
      else if \<not> 3 < length (bands processed) then Inl ''tuple index out of range''
      else let alpha = bands processed ! 3;
               unique_values = length (remdups alpha)
           in if unique_values < 2 then Inr False
              else let transparent_ratio =
                         py_truediv (length (filter (\<lambda>a. a < 10) alpha)) (length alpha)
                   in if transparent_ratio > float64 (95 / 100) then Inr False
                      else Inr True)"

text \<open>\<^verbatim>\<open>except Exception as e: ... return True\<close>.\<close>

definition validate_result :: "image \<Rightarrow> image \<Rightarrow> string + bool" where
  "validate_result original processed =
     (case validate_checks processed of
        Inl e \<Rightarrow> Inr True
      | Inr ok \<Rightarrow> Inr ok)"


section \<open>The inference step with retries and fallback\<close>

definition max_retries :: nat where
  "max_retries = 2"

definition py_range :: "nat \<Rightarrow> nat list" where
  "py_range n = [0..<n]"

text \<open>One call of \<^verbatim>\<open>remove(img_for_processing, session=..., ...)\<close>.\<close>

definition call_remove ::
  "env \<Rightarrow> image \<Rightarrow> session option \<Rightarrow> params \<Rightarrow> state \<Rightarrow> (string + image) \<times> state" where
  "call_remove env img sess p st =
     (rembg_remove env (trace st) img sess p, record_event (Infer sess) st)"

text \<open>The loop variables of both handlers; the binary handler has no \<^verbatim>\<open>last_error\<close>.\<close>

record loop_vars =
  output_image :: "image option"
  last_error :: "string option"

datatype ctl = Break | Continue

text \<open>
  The \<^verbatim>\<open>try\<close> body of one iteration in \<^verbatim>\<open>remove_background\<close>. It returns how the body
  ended (an exception message, \<^verbatim>\<open>break\<close> or \<^verbatim>\<open>continue\<close>) with the variables at
  that point: \<^verbatim>\<open>output_image\<close> is assigned before the result is validated.
\<close>

definition try_body_json ::
  "env \<Rightarrow> params \<Rightarrow> image \<Rightarrow> loop_vars \<Rightarrow> state \<Rightarrow> (string + ctl) \<times> loop_vars \<times> state" where
  "try_body_json env p img v st =
     (case get_model_session env (model p) st of
        (Inl e, st1) \<Rightarrow> (Inl e, v, st1)
      | (Inr session, st1) \<Rightarrow>
          (case call_remove env img (Some session) p st1 of
             (Inl e, st2) \<Rightarrow> (Inl e, v, st2)
           | (Inr out, st2) \<Rightarrow>
               (let v1 = v\<lparr>output_image := Some out\<rparr>;
                    st3 = record_event (Validate out) st2
                in case validate_result img out of
                     Inl e \<Rightarrow> (Inl e, v1, st3)
                   | Inr ok \<Rightarrow>
                       if ok then (Inr Break, v1, st3)
                       else (Inr Continue,
                             v1\<lparr>last_error := Some ''Result validation failed''\<rparr>, st3))))"

text \<open>
  The \<^verbatim>\<open>except Exception as e\<close> handler: on the last attempt it calls \<^verbatim>\<open>remove\<close>
  without a session, and raises \<^verbatim>\<open>HTTPException(500)\<close> if that raises too.
\<close>

definition attempt_json ::
  "env \<Rightarrow> params \<Rightarrow> image \<Rightarrow> nat \<Rightarrow> loop_vars \<Rightarrow> state \<Rightarrow> (exn + ctl \<times> loop_vars) \<times> state" where
  "attempt_json env p img attempt v st =
     (case try_body_json env p img v st of
        (Inr c, v1, st1) \<Rightarrow> (Inr (c, v1), st1)
      | (Inl e, v1, st1) \<Rightarrow>
          (let v2 = v1\<lparr>last_error := Some e\<rparr>
           in if attempt = max_retries - 1
              then (case call_remove env img None p st1 of
                      (Inr out, st2) \<Rightarrow> (Inr (Continue, v2\<lparr>output_image := Some out\<rparr>), st2)
                    | (Inl fallback_error, st2) \<Rightarrow>
                        (Inl (HTTPException 500
                                (''Background removal failed: '' @ fallback_error)), st2))
              else (Inr (Continue, v2), st1)))"

fun retry_json ::
  "env \<Rightarrow> params \<Rightarrow> image \<Rightarrow> nat list \<Rightarrow> loop_vars \<Rightarrow> state \<Rightarrow> (exn + loop_vars) \<times> state" where
  "retry_json env p img [] v st = (Inr v, st)"
| "retry_json env p img (attempt # rest) v st =
     (case attempt_json env p img attempt v st of
        (Inl e, st1) \<Rightarrow> (Inl e, st1)
      | (Inr (Break, v1), st1) \<Rightarrow> (Inr v1, st1)
      | (Inr (Continue, v1), st1) \<Rightarrow> retry_json env p img rest v1 st1)"

text \<open>
  The same for \<^verbatim>\<open>remove_background_binary\<close>: no \<^verbatim>\<open>last_error\<close>, and an invalid
  result simply falls through to the next iteration.
\<close>

definition try_body_binary ::
  "env \<Rightarrow> params \<Rightarrow> image \<Rightarrow> image option \<Rightarrow> state
     \<Rightarrow> (string + ctl) \<times> image option \<times> state" where
  "try_body_binary env p img v st =
     (case get_model_session env (model p) st of
        (Inl e, st1) \<Rightarrow> (Inl e, v, st1)
      | (Inr session, st1) \<Rightarrow>
          (case call_remove env img (Some session) p st1 of
             (Inl e, st2) \<Rightarrow> (Inl e, v, st2)
           | (Inr out, st2) \<Rightarrow>
               (let st3 = record_event (Validate out) st2
                in case validate_result img out of
                     Inl e \<Rightarrow> (Inl e, Some out, st3)
                   | Inr ok \<Rightarrow>
                       if ok then (Inr Break, Some out, st3)
                       else (Inr Continue, Some out, st3))))"

definition attempt_binary ::
  "env \<Rightarrow> params \<Rightarrow> image \<Rightarrow> nat \<Rightarrow> image option \<Rightarrow> state
     \<Rightarrow> (exn + ctl \<times> image option) \<times> state" where
  "attempt_binary env p img attempt v st =
     (case try_body_binary env p img v st of
        (Inr c, v1, st1) \<Rightarrow> (Inr (c, v1), st1)
      | (Inl e, v1, st1) \<Rightarrow>
          (if attempt = max_retries - 1
           then (case call_remove env img None p st1 of
                   (Inr out, st2) \<Rightarrow> (Inr (Continue, Some out), st2)
                 | (Inl fallback_error, st2) \<Rightarrow>
                     (Inl (HTTPException 500
                             (''Background removal failed: '' @ fallback_error)), st2))
           else (Inr (Continue, v1), st1)))"

fun retry_binary ::
  "env \<Rightarrow> params \<Rightarrow> image \<Rightarrow> nat list \<Rightarrow> image option \<Rightarrow> state
     \<Rightarrow> (exn + image option) \<times> state" where
  "retry_binary env p img [] v st = (Inr v, st)"
| "retry_binary env p img (attempt # rest) v st =
     (case attempt_binary env p img attempt v st of
        (Inl e, st1) \<Rightarrow> (Inl e, st1)
      | (Inr (Break, v1), st1) \<Rightarrow> (Inr v1, st1)
      | (Inr (Continue, v1), st1) \<Rightarrow> retry_binary env p img rest v1 st1)"


section \<open>The two POST handlers\<close>

text \<open>
  An uploaded file. \<^verbatim>\<open>file.filename\<close> is \<^verbatim>\<open>None\<close> or a Python \<^verbatim>\<open>str\<close>, a list of
  Unicode code points; \<open>contents\<close> are the bytes \<^verbatim>\<open>await file.read()\<close> returns.
\<close>

record upload =
  content_type :: "string option"
  filename :: "nat list option"
  contents :: "nat list"

definition codepoints :: "string \<Rightarrow> nat list" where
  "codepoints s = map of_char s"

definition allowed_types :: "string list" where
  "allowed_types = [''image/png'', ''image/jpeg'', ''image/jpg'', ''image/webp'']"

text \<open>\<^verbatim>\<open>sep.join(xs)\<close>.\<close>

fun join :: "string \<Rightarrow> string list \<Rightarrow> string" where
  "join sep [] = []"
| "join sep [x] = x"
| "join sep (x # y # ys) = x @ sep @ join sep (y # ys)"

definition invalid_type :: exn where
  "invalid_type =
     HTTPException 400 (''Invalid file type. Allowed types: '' @ join '', '' allowed_types)"

text \<open>\<^verbatim>\<open>name.rsplit('.', 1)[0]\<close>: the part before the last dot, all of it without a dot.\<close>

definition rsplit_stem :: "nat list \<Rightarrow> nat list" where
  "rsplit_stem name =
     (if of_char CHR ''.'' \<in> set name
      then rev (tl (dropWhile (\<lambda>c. c \<noteq> of_char CHR ''.'') (rev name)))
      else name)"

text \<open>
  The framework encodes a header value with \<^verbatim>\<open>v.encode("latin-1")\<close>, which raises
  \<^verbatim>\<open>UnicodeEncodeError\<close> on a code point above 255.
\<close>

definition latin_1 :: "nat list \<Rightarrow> bool" where
  "latin_1 v = list_all (\<lambda>c. c < 256) v"

text \<open>The message of the \<^verbatim>\<open>AttributeError\<close> that \<^verbatim>\<open>None.rsplit\<close> raises.\<close>

definition none_rsplit_error :: string where
  "none_rsplit_error =
     [CHR 0x27] @ ''NoneType'' @ [CHR 0x27] @ '' object has no attribute ''
       @ [CHR 0x27] @ ''rsplit'' @ [CHR 0x27]"

text \<open>
  The steps both handlers share before inference: content type, size of the payload,
  decoding, pre-processing with the default \<^verbatim>\<open>max_size\<close>.
\<close>

definition read_upload :: "env \<Rightarrow> upload \<Rightarrow> exn + image \<times> image \<times> (int \<times> int)" where
  "read_upload env file =
     (if content_type file \<notin> Some ` set allowed_types then Inl invalid_type
      else let file_size_mb = py_truediv (length (contents file)) (1024 * 1024)
           in if file_size_mb > 50
              then Inl (HTTPException 400
                          (''File too large ('' @ format_1f env file_size_mb
                             @ ''MB). Maximum size is 50MB.''))
              else (case pil_open env (contents file) of
                      Inl e \<Rightarrow> Inl (HTTPException 400 (''Invalid or corrupt image file: '' @ e))
                    | Inr original_image \<Rightarrow>
                        (case preprocess_image env original_image 4000 of
                           Inl e \<Rightarrow> Inl e
                         | Inr (img_for_processing, original_size) \<Rightarrow>
                             Inr (original_image, img_for_processing, original_size))))"

text \<open>
  The outer \<^verbatim>\<open>except HTTPException: raise\<close> / \<^verbatim>\<open>except Exception as e\<close> of both
  handlers.
\<close>

definition to_http :: "exn \<Rightarrow> exn" where
  "to_http e =
     (case e of
        HTTPException c d \<Rightarrow> HTTPException c d
      | Error m \<Rightarrow> HTTPException 500 (''Error processing image: '' @ m))"

text \<open>\<^verbatim>\<open>original_image.format or 'PNG'\<close>.\<close>

definition original_format :: "env \<Rightarrow> upload \<Rightarrow> string" where
  "original_format env file =
     (case pil_format env (contents file) of
        None \<Rightarrow> ''PNG''
      | Some f \<Rightarrow> if f = [] then ''PNG'' else f)"

text \<open>
  The JSON envelope. An image entry carries the bytes \<^verbatim>\<open>image.save\<close> wrote (the
  \<^verbatim>\<open>data\<close> string is their base64 encoding), the format and the size.
\<close>

record encoded =
  image_data :: "nat list"
  image_format :: string
  image_size :: "int \<times> int"

record envelope =
  success :: bool
  original_image :: encoded
  processed_image :: encoded
  message :: string

text \<open>
  The end of \<^verbatim>\<open>remove_background\<close>, from \<^verbatim>\<open># Post-process for perfect results\<close> to the
  \<^verbatim>\<open>return\<close>: post-processing and the two \<^verbatim>\<open>save\<close> calls can raise.
\<close>

definition json_response ::
  "env \<Rightarrow> upload \<Rightarrow> image \<Rightarrow> image \<Rightarrow> int \<times> int \<Rightarrow> exn + envelope" where
  "json_response env file original out original_size =
     (case postprocess_image env out original_size True of
        Inl e \<Rightarrow> Inl e
      | Inr out' \<Rightarrow>
          (case pil_save env original (original_format env file) of
             Inl e \<Rightarrow> Inl (Error e)
           | Inr original_data \<Rightarrow>
               (case pil_save env out' ''PNG'' of
                  Inl e \<Rightarrow> Inl (Error e)
                | Inr output_data \<Rightarrow>
                    Inr \<lparr>success = True,
                         original_image =
                           \<lparr>image_data = original_data,
                            image_format = original_format env file,
                            image_size = size_of original\<rparr>,
                         processed_image =
                           \<lparr>image_data = output_data, image_format = ''PNG'',
                            image_size = size_of out'\<rparr>,
                         message = ''Background removed successfully''\<rparr>)))"

definition remove_background ::
  "env \<Rightarrow> upload \<Rightarrow> params \<Rightarrow> state \<Rightarrow> (exn + envelope) \<times> state" where
  "remove_background env file p st =
     (case read_upload env file of
        Inl e \<Rightarrow> (Inl (to_http e), st)
      | Inr (original, img_for_processing, original_size) \<Rightarrow>
          (case retry_json env p img_for_processing (py_range max_retries)
                  \<lparr>output_image = None, last_error = None\<rparr> st of
             (Inl e, st1) \<Rightarrow> (Inl (to_http e), st1)
           | (Inr v, st1) \<Rightarrow>
               (case output_image v of
                  None \<Rightarrow>
                    (Inl (HTTPException 500
                            (''Background removal failed after 2 attempts: ''
                               @ (case last_error v of None \<Rightarrow> ''None'' | Some e \<Rightarrow> e))), st1)
                | Some out \<Rightarrow>
                    (case json_response env file original out original_size of
                       Inl e \<Rightarrow> (Inl (to_http e), st1)
                     | Inr response \<Rightarrow> (Inr response, st1)))))"

text \<open>
  The streamed PNG: the bytes written by \<^verbatim>\<open>output_image.save\<close> and the
  \<^verbatim>\<open>Content-Disposition\<close> header, which \<^verbatim>\<open>StreamingResponse\<close> encodes when it is built.
\<close>

record png_response =
  body :: "nat list"
  media_type :: string
  content_disposition :: "nat list"

text \<open>The end of \<^verbatim>\<open>remove_background_binary\<close>, likewise.\<close>

definition binary_response ::
  "env \<Rightarrow> upload \<Rightarrow> image \<Rightarrow> int \<times> int \<Rightarrow> exn + png_response" where
  "binary_response env file out original_size =
     (case postprocess_image env out original_size True of
        Inl e \<Rightarrow> Inl e
      | Inr out' \<Rightarrow>
          (case pil_save env out' ''PNG'' of
             Inl e \<Rightarrow> Inl (Error e)
           | Inr output_data \<Rightarrow>
               (case filename file of
                  None \<Rightarrow> Inl (Error none_rsplit_error)
                | Some name \<Rightarrow>
                    (let header = codepoints ''attachment; filename=no_bg_''
                                    @ rsplit_stem name @ codepoints ''.png''
                     in if latin_1 header
                        then Inr \<lparr>body = output_data, media_type = ''image/png'',
                                  content_disposition = header\<rparr>
                        else Inl (Error (str_encode_error env header))))))"

definition remove_background_binary ::
  "env \<Rightarrow> upload \<Rightarrow> params \<Rightarrow> state \<Rightarrow> (exn + png_response) \<times> state" where
  "remove_background_binary env file p st =
     (case read_upload env file of
        Inl e \<Rightarrow> (Inl (to_http e), st)
      | Inr (input_image, img_for_processing, original_size) \<Rightarrow>
          (case retry_binary env p img_for_processing (py_range max_retries) None st of
             (Inl e, st1) \<Rightarrow> (Inl (to_http e), st1)
           | (Inr v, st1) \<Rightarrow>
               (case v of
                  None \<Rightarrow>
                    (Inl (HTTPException 500
                            ''Background removal failed after multiple attempts''), st1)
                | Some out \<Rightarrow>
                    (case binary_response env file out original_size of
                       Inl e \<Rightarrow> (Inl (to_http e), st1)
                     | Inr response \<Rightarrow> (Inr response, st1)))))"


section \<open>The life of the process\<close>

text \<open>
  What the process does, one thing after the other: a direct call of
  \<^verbatim>\<open>get_model_session\<close> or a request to one of the two POST endpoints. Only the state
  matters here; the responses are dropped.
\<close>

datatype activity = GetSession string | PostJson upload params | PostBinary upload params

fun perform :: "env \<Rightarrow> activity \<Rightarrow> state \<Rightarrow> state" where
  "perform env (GetSession m) st = snd (get_model_session env m st)"
| "perform env (PostJson file p) st = snd (remove_background env file p st)"
| "perform env (PostBinary file p) st = snd (remove_background_binary env file p st)"

fun run :: "env \<Rightarrow> activity list \<Rightarrow> state \<Rightarrow> state" where
  "run env [] st = st"
| "run env (a # as) st = run env as (perform env a st)"


section \<open>Reading the history\<close>

text \<open>
  The model identifiers loaded, the session arguments of the inference calls and the images
  given to \<^verbatim>\<open>validate_result\<close>, in order.
\<close>

fun loads :: "event list \<Rightarrow> string list" where
  "loads [] = []"
| "loads (Load m # evs) = m # loads evs"
| "loads (Infer s # evs) = loads evs"
| "loads (Validate x # evs) = loads evs"

fun inferences :: "event list \<Rightarrow> session option list" where
  "inferences [] = []"
| "inferences (Load m # evs) = inferences evs"
| "inferences (Infer s # evs) = s # inferences evs"
| "inferences (Validate x # evs) = inferences evs"

fun validated :: "event list \<Rightarrow> image list" where
  "validated [] = []"
| "validated (Load m # evs) = validated evs"
| "validated (Infer s # evs) = validated evs"
| "validated (Validate x # evs) = x # validated evs"

definition primary_calls :: "event list \<Rightarrow> nat" where
  "primary_calls evs = length (filter (\<lambda>s. s \<noteq> None) (inferences evs))"

definition fallback_calls :: "event list \<Rightarrow> nat" where
  "fallback_calls evs = length (filter (\<lambda>s. s = None) (inferences evs))"

text \<open>The events a run added to the history it started from.\<close>

definition new_events :: "state \<Rightarrow> state \<Rightarrow> event list" where
  "new_events st st' = drop (length (trace st)) (trace st')"


text \<open>
  \<open>later st st'\<close>: the history of \<open>st'\<close> continues that of \<open>st\<close>, every cache entry of
  \<open>st\<close> is still there with the same handle, and no identifier cached in \<open>st\<close> has been
  loaded since.
\<close>

definition later :: "state \<Rightarrow> state \<Rightarrow> bool" where
  "later st st' \<longleftrightarrow>
     take (length (trace st)) (trace st') = trace st
     \<and> MODEL_SESSIONS st \<subseteq>\<^sub>m MODEL_SESSIONS st'
     \<and> set (loads (new_events st st')) \<inter> dom (MODEL_SESSIONS st) = {}"


section \<open>Concrete collaborators and images for worked instances\<close>

text \<open>
  Collaborators for the examples: the given loader, inference routine and decoder result; a
  Pillow that refuses to convert the premultiplied mode \<^verbatim>\<open>La\<close>, drops the transparency
  entry when it converts to RGBA, turns a single band into three equal ones (with an alpha
  band that is 0 at palette index 0 when it converts to RGBA), leaves pixel data alone
  otherwise and writes the bands one after the other.
\<close>

definition example_convert :: "image \<Rightarrow> string \<Rightarrow> string + bool \<times> band list" where
  "example_convert im m =
     (if mode im = ''La'' then Inl ''conversion not supported''
      else Inr (transparency im \<and> m \<noteq> ''RGBA'',
                case bands im of
                  [b] \<Rightarrow> if m = ''RGBA'' then [b, b, b, map (\<lambda>i. if i = 0 then 0 else 255) b]
                         else [b, b, b]
                | bs \<Rightarrow> bs))"

definition example_env ::
  "(event list \<Rightarrow> string \<Rightarrow> string + session)
     \<Rightarrow> (event list \<Rightarrow> image \<Rightarrow> session option \<Rightarrow> params \<Rightarrow> string + image)
     \<Rightarrow> (string + image) \<Rightarrow> env" where
  "example_env loader rm decoded =
     \<lparr>rembg_new_session = loader, rembg_remove = rm,
      lanczos = (\<lambda>sz im. bands im),
      pil_convert = example_convert,
      gaussian_blur = (\<lambda>r b. b), pil_open = (\<lambda>bs. decoded),
      pil_format = (\<lambda>bs. Some ''PNG''),
      pil_save = (\<lambda>im fmt. Inr (concat (bands im))),
      format_1f = (\<lambda>x. ''50.1''),
      str_encode_error = (\<lambda>v. ''codec cannot encode character'')\<rparr>"

definition default_params :: params where
  "default_params =
     \<lparr>model = ''isnet-general-use'', alpha_matting = True,
      alpha_matting_foreground_threshold = 232, alpha_matting_background_threshold = 50,
      alpha_matting_erode_size = 20, post_process_mask = True\<rparr>"

definition fresh :: state where
  "fresh = \<lparr>MODEL_SESSIONS = Map.empty, trace = []\<rparr>"

text \<open>A 2x2 photo, a proper cut-out of it, and a result whose alpha is 255 everywhere.\<close>

definition photo :: image where
  "photo = \<lparr>width = 2, height = 2, mode = ''RGB'', transparency = False,
            bands = [ [10, 20, 30, 40], [10, 20, 30, 40], [10, 20, 30, 40] ]\<rparr>"

definition cutout :: image where
  "cutout = \<lparr>width = 2, height = 2, mode = ''RGBA'', transparency = False,
             bands = [ [10, 20, 30, 40], [10, 20, 30, 40], [10, 20, 30, 40], [0, 255, 255, 0] ]\<rparr>"

definition opaque :: image where
  "opaque = \<lparr>width = 2, height = 2, mode = ''RGBA'', transparency = False,
             bands = [ [10, 20, 30, 40], [10, 20, 30, 40], [10, 20, 30, 40],
                      [255, 255, 255, 255] ]\<rparr>"




text \<open>A 7x3 result of which 20 pixels out of 21 are fully transparent.\<close>

definition washed_out :: image where
  "washed_out = \<lparr>width = 7, height = 3, mode = ''RGBA'', transparency = False,
                 bands = [replicate 21 0, replicate 21 0, replicate 21 0,
                          [0, 0, 0, 0, 0, 0, 0, 0, 0, 0, 0, 0, 0, 0, 0, 0, 0, 0, 0, 0, 255] ]\<rparr>"

text \<open>An all-black RGB image of a given size.\<close>

definition blank :: "nat \<Rightarrow> nat \<Rightarrow> image" where
  "blank w h = \<lparr>width = w, height = h, mode = ''RGB'', transparency = False,
                bands = replicate 3 (replicate (w * h) 0)\<rparr>"

definition png_upload :: upload where
  "png_upload = \<lparr>content_type = Some ''image/png'', filename = Some (codepoints ''photo.png''),
                 contents = [137, 80, 78, 71]\<rparr>"

text \<open>
  Three behaviours of the segmentation library: always a proper cut-out; an exception
  whenever a session is passed, and an all-opaque result without one; an all-opaque result
  on every call.
\<close>

definition steady_env :: "(string + image) \<Rightarrow> env" where
  "steady_env decoded = example_env (\<lambda>h m. Inr 1) (\<lambda>h im s p. Inr cutout) decoded"


definition opaque_env :: "(string + image) \<Rightarrow> env" where
  "opaque_env decoded = example_env (\<lambda>h m. Inr 1) (\<lambda>h im s p. Inr opaque) decoded"





section \<open>Facts about the double-precision model\<close>

lemma rhe_bounds: "\<bar>real_of_int (round_half_even x) - x\<bar> \<le> 1/2"
  unfolding round_half_even_def Let_def by (auto simp: abs_le_iff; linarith)

lemma rhe_int: "round_half_even (of_int n) = n"
  unfolding round_half_even_def Let_def by simp

lemma rhe_mono: "x \<le> y \<Longrightarrow> round_half_even x \<le> round_half_even y"
proof -
  assume xy: "x \<le> y"
  have fl: "\<lfloor>x\<rfloor> \<le> \<lfloor>y\<rfloor>" using xy by (rule floor_mono)
  show ?thesis
  proof (cases "\<lfloor>x\<rfloor> = \<lfloor>y\<rfloor>")
    case True
    then show ?thesis using xy
      unfolding round_half_even_def Let_def by auto
  next
    case False
    with fl have "\<lfloor>x\<rfloor> + 1 \<le> \<lfloor>y\<rfloor>" by simp
    moreover have "round_half_even x \<le> \<lfloor>x\<rfloor> + 1"
      unfolding round_half_even_def Let_def by auto
    moreover have "\<lfloor>y\<rfloor> \<le> round_half_even y"
      unfolding round_half_even_def Let_def by auto
    ultimately show ?thesis by linarith
  qed
qed

lemma two_powi_less_cancel: "(2::real) powi a < 2 powi b \<Longrightarrow> a < b"
proof (rule ccontr)
  assume lt: "(2::real) powi a < 2 powi b" and "\<not> a < b"
  then have "b \<le> a" by simp
  then have "(2::real) powi b \<le> 2 powi a" by (rule power_int_increasing) simp
  with lt show False by simp
qed

lemma binexp_ge1:
  assumes "1 \<le> x"
  shows "2 powi binexp x \<le> x" and "x < 2 powi (binexp x + 1)"
proof -
  let ?n = "\<lfloor>x\<rfloor>"
  let ?b = "bitlen ?n"
  have n: "0 < ?n" using assms by simp
  have b1: "1 \<le> ?b" using n by (simp add: bitlen_alt_def)
  have e: "binexp x = ?b - 1" using assms by (simp add: binexp_def)
  from bitlen_bounds [OF n] have lo: "2 ^ nat (?b - 1) \<le> ?n" and hi: "?n < 2 ^ nat ?b"
    by simp_all
  have "2 powi binexp x = (2::real) ^ nat (?b - 1)"
    using b1 by (simp add: e power_int_nonneg_exp)
  also have "\<dots> = real_of_int (2 ^ nat (?b - 1))" by simp
  also have "\<dots> \<le> real_of_int ?n" using lo by (simp only: of_int_le_iff)
  also have "\<dots> \<le> x" by simp
  finally show "2 powi binexp x \<le> x" .
  from hi have "?n + 1 \<le> 2 ^ nat ?b" by simp
  then have "real_of_int (?n + 1) \<le> real_of_int (2 ^ nat ?b)" by (simp only: of_int_le_iff)
  moreover have "x < real_of_int (?n + 1)" by simp
  ultimately have "x < real_of_int (2 ^ nat ?b)" by linarith
  also have "\<dots> = 2 powi (binexp x + 1)"
    using b1 by (simp add: e power_int_nonneg_exp)
  finally show "x < 2 powi (binexp x + 1)" .
qed

lemma binexp_lt1:
  assumes "0 < x" "x < 1"
  shows "2 powi binexp x \<le> x" and "x < 2 powi (binexp x + 1)"
proof -
  let ?c = "\<lceil>1 / x\<rceil>"
  let ?k = "bitlen (?c - 1)"
  have y: "1 < 1 / x" using assms by simp
  then have c2: "2 \<le> ?c" by (simp add: le_ceiling_iff)
  then have c1: "0 < ?c - 1" by simp
  have k1: "1 \<le> ?k" using c1 by (simp add: bitlen_alt_def)
  have e: "binexp x = - ?k" using assms by (simp add: binexp_def)
  from bitlen_bounds [OF c1] have lo: "2 ^ nat (?k - 1) \<le> ?c - 1" and hi: "?c - 1 < 2 ^ nat ?k"
    by simp_all
  from hi have "?c \<le> 2 ^ nat ?k" by simp
  then have "real_of_int ?c \<le> real_of_int (2 ^ nat ?k)" by (simp only: of_int_le_iff)
  moreover have "1 / x \<le> real_of_int ?c" by (rule le_of_int_ceiling)
  ultimately have "1 / x \<le> real_of_int (2 ^ nat ?k)" by (rule order_trans [rotated])
  then have "1 / x \<le> 2 ^ nat ?k" by simp
  then have "1 \<le> 2 ^ nat ?k * x" using assms by (simp add: field_simps)
  then have "1 / 2 ^ nat ?k \<le> x" by (simp add: field_simps)
  moreover have "2 powi binexp x = 1 / (2::real) ^ nat ?k"
    using k1 by (simp add: e power_int_minus_divide power_int_nonneg_exp)
  ultimately show "2 powi binexp x \<le> x" by simp
  from lo have "real_of_int (2 ^ nat (?k - 1)) \<le> real_of_int (?c - 1)" by (simp only: of_int_le_iff)
  moreover have "real_of_int (?c - 1) < 1 / x"
  proof -
    have "real_of_int ?c - 1 < 1 / x" using ceiling_correct [of "1 / x"] by blast
    then show ?thesis by simp
  qed
  ultimately have "real_of_int (2 ^ nat (?k - 1)) < 1 / x" by (rule le_less_trans)
  then have "2 ^ nat (?k - 1) < 1 / x" by simp
  then have "2 ^ nat (?k - 1) * x < 1" using assms by (simp add: field_simps)
  then have "x < 1 / 2 ^ nat (?k - 1)" by (simp add: field_simps)
  moreover have "2 powi (binexp x + 1) = 1 / (2::real) ^ nat (?k - 1)"
  proof -
    have "binexp x + 1 = - (?k - 1)" by (simp add: e)
    then have "2 powi (binexp x + 1) = (2::real) powi (- (?k - 1))" by simp
    also have "\<dots> = 1 / 2 powi (?k - 1)" by (rule power_int_minus_divide)
    also have "\<dots> = 1 / 2 ^ nat (?k - 1)" using k1 by (simp add: power_int_nonneg_exp)
    finally show ?thesis .
  qed
  ultimately show "x < 2 powi (binexp x + 1)" by simp
qed

lemma binexp_bounds:
  assumes "0 < x"
  shows "2 powi binexp x \<le> x" and "x < 2 powi (binexp x + 1)"
  using assms binexp_ge1 [of x] binexp_lt1 [of x] by (cases "1 \<le> x"; simp)+

lemma binexp_unique:
  assumes "2 powi e \<le> x" "x < 2 powi (e + 1)"
  shows "binexp x = e"
proof -
  have x: "0 < x" using assms(1) zero_less_power_int [of "2::real" e] by linarith
  note b = binexp_bounds [OF x]
  have "(2::real) powi e < 2 powi (binexp x + 1)" using assms(1) b(2) by linarith
  then have "e < binexp x + 1"
    by (rule two_powi_less_cancel)
  moreover have "(2::real) powi binexp x < 2 powi (e + 1)" using assms(2) b(1) by linarith
  then have "binexp x < e + 1"
    by (rule two_powi_less_cancel)
  ultimately show ?thesis by simp
qed

lemma binexp_mono:
  assumes "0 < x" "x \<le> y"
  shows "binexp x \<le> binexp y"
proof -
  have y: "0 < y" using assms by simp
  have "(2::real) powi binexp x < 2 powi (binexp y + 1)"
    using binexp_bounds(1) [OF assms(1)] binexp_bounds(2) [OF y] assms(2) by linarith
  then have "binexp x < binexp y + 1"
    by (rule two_powi_less_cancel)
  then show ?thesis by simp
qed

lemma scaled_bounds:
  assumes "0 < x"
  shows "2 ^ 52 \<le> x / 2 powi (binexp x - 52)" and "x / 2 powi (binexp x - 52) < 2 ^ 53"
proof -
  let ?p = "(2::real) powi (binexp x - 52)"
  have p: "0 < ?p" by (simp add: zero_less_power_int)
  have lo: "2 powi binexp x = ?p * 2 ^ 52"
    by (simp add: power_int_diff)
  have hi: "2 powi (binexp x + 1) = ?p * 2 ^ 53"
    by (simp add: power_int_diff power_int_add)
  from binexp_bounds(1) [OF assms] lo have "?p * 2 ^ 52 \<le> x" by simp
  then show "2 ^ 52 \<le> x / ?p" using p by (simp add: field_simps)
  from binexp_bounds(2) [OF assms] hi have "x < ?p * 2 ^ 53" by simp
  then show "x / ?p < 2 ^ 53" using p by (simp add: field_simps)
qed

lemma float64_pos:
  "0 < x \<Longrightarrow>
   float64 x = of_int (round_half_even (x / 2 powi (binexp x - 52))) * 2 powi (binexp x - 52)"
  by (simp add: float64_def Let_def)

lemma mant_bounds:
  assumes "0 < x"
  shows "2 ^ 52 \<le> round_half_even (x / 2 powi (binexp x - 52))"
    and "round_half_even (x / 2 powi (binexp x - 52)) \<le> 2 ^ 53"
proof -
  let ?s = "x / 2 powi (binexp x - 52)"
  have "round_half_even (of_int (2 ^ 52)) \<le> round_half_even ?s"
    using scaled_bounds(1) [OF assms] by (intro rhe_mono) simp
  then show "2 ^ 52 \<le> round_half_even ?s" by (simp only: rhe_int)
  have "round_half_even ?s \<le> round_half_even (of_int (2 ^ 53))"
    using scaled_bounds(2) [OF assms] by (intro rhe_mono) simp
  then show "round_half_even ?s \<le> 2 ^ 53" by (simp only: rhe_int)
qed

lemma float64_nonneg: "0 \<le> x \<Longrightarrow> 0 \<le> float64 x"
proof (cases "x = 0")
  case True
  then show ?thesis by (simp add: float64_def)
next
  case False
  assume "0 \<le> x"
  with False have x: "0 < x" by simp
  have "(0::int) \<le> 2 ^ 52" by simp
  then have "0 \<le> round_half_even (x / 2 powi (binexp x - 52))"
    using mant_bounds(1) [OF x] by (rule order_trans)
  then show ?thesis by (simp add: float64_pos [OF x])
qed

lemma float64_err:
  assumes "0 \<le> x"
  shows "\<bar>float64 x - x\<bar> \<le> x / 2 ^ 53"
proof (cases "x = 0")
  case True
  then show ?thesis by (simp add: float64_def)
next
  case False
  with assms have x: "0 < x" by simp
  let ?p = "(2::real) powi (binexp x - 52)"
  let ?s = "x / ?p"
  have p: "0 < ?p" by (simp add: zero_less_power_int)
  have xs: "x = ?s * ?p" using p by simp
  have "float64 x - x = (of_int (round_half_even ?s) - ?s) * ?p"
    using p by (simp add: float64_pos [OF x] algebra_simps)
  then have "\<bar>float64 x - x\<bar> = \<bar>of_int (round_half_even ?s) - ?s\<bar> * ?p"
    using p by (simp add: abs_mult)
  also have "\<dots> \<le> (1/2) * ?p"
    using rhe_bounds [of ?s] p by (intro mult_right_mono) simp_all
  also have "\<dots> \<le> x / 2 ^ 53"
  proof -
    have "?p * 2 ^ 52 \<le> x" using scaled_bounds(1) [OF x] p by (simp add: field_simps)
    then show ?thesis by simp
  qed
  finally show ?thesis .
qed

lemma float64_mono:
  assumes "0 \<le> x" "x \<le> y"
  shows "float64 x \<le> float64 y"
proof (cases "x = 0")
  case True
  then show ?thesis using assms float64_nonneg [of y] by (simp add: float64_def)
next
  case False
  with assms have x: "0 < x" and y: "0 < y" by simp_all
  let ?px = "(2::real) powi (binexp x - 52)"
  let ?py = "(2::real) powi (binexp y - 52)"
  have px: "0 < ?px" and py: "0 < ?py" by (simp_all add: zero_less_power_int)
  have le: "binexp x \<le> binexp y" using x assms(2) by (rule binexp_mono)
  show ?thesis
  proof (cases "binexp x = binexp y")
    case True
    have "x / ?py \<le> y / ?py" using assms(2) py by (simp add: divide_right_mono)
    then have "round_half_even (x / ?py) \<le> round_half_even (y / ?py)" by (rule rhe_mono)
    then have "real_of_int (round_half_even (x / ?py)) * ?py
                 \<le> real_of_int (round_half_even (y / ?py)) * ?py"
      using py by (intro mult_right_mono) simp_all
    then show ?thesis by (simp add: float64_pos [OF x] float64_pos [OF y] True)
  next
    case False
    with le have lt: "binexp x + 1 \<le> binexp y" by simp
    have "float64 x \<le> 2 ^ 53 * ?px"
    proof -
      have "real_of_int (round_half_even (x / ?px)) \<le> real_of_int (2 ^ 53)"
        using mant_bounds(2) [OF x] by (simp only: of_int_le_iff)
      then show ?thesis using px by (simp add: float64_pos [OF x])
    qed
    also have "2 ^ 53 * ?px = 2 powi (binexp x + 1)"
      by (simp add: power_int_diff power_int_add)
    also have "\<dots> \<le> 2 powi binexp y" using lt by (intro power_int_increasing) simp_all
    also have "\<dots> = 2 ^ 52 * ?py" by (simp add: power_int_diff)
    also have "\<dots> \<le> float64 y"
    proof -
      have "real_of_int (2 ^ 52) \<le> real_of_int (round_half_even (y / ?py))"
        using mant_bounds(1) [OF y] by (simp only: of_int_le_iff)
      then show ?thesis using py by (simp add: float64_pos [OF y])
    qed
    finally show ?thesis .
  qed
qed

lemma float64_exact:
  assumes m: "0 < m" "m < 2 ^ 53" and x: "x = real_of_int m * 2 powi k"
  shows "float64 x = x"
proof -
  have pk: "0 < (2::real) powi k" by (simp add: zero_less_power_int)
  have xpos: "0 < x" using m pk by (simp add: x)
  let ?e = "binexp x - 52"
  have "x < 2 ^ 53 * 2 powi k"
  proof -
    have "real_of_int m < real_of_int (2 ^ 53)" using m(2) by (simp only: of_int_less_iff)
    then show ?thesis using pk by (simp add: x)
  qed
  also have "\<dots> = 2 powi (k + 53)" by (simp add: power_int_add)
  finally have "2 powi binexp x < (2::real) powi (k + 53)"
    using binexp_bounds(1) [OF xpos] by linarith
  then have "binexp x < k + 53" by (rule two_powi_less_cancel)
  then have ek: "0 \<le> k - ?e" by simp
  have "x / 2 powi ?e = real_of_int m * 2 powi (k - ?e)"
    by (simp add: x power_int_diff)
  also have "\<dots> = real_of_int (m * 2 ^ nat (k - ?e))"
    using ek by (simp add: power_int_nonneg_exp)
  finally have s: "x / 2 powi ?e = real_of_int (m * 2 ^ nat (k - ?e))" .
  have "float64 x = real_of_int (m * 2 ^ nat (k - ?e)) * 2 powi ?e"
    unfolding float64_pos [OF xpos] s rhe_int ..
  also have "\<dots> = x / 2 powi ?e * 2 powi ?e" by (simp only: s)
  also have "\<dots> = x" by simp
  finally show ?thesis .
qed

lemma float64_of_nat: "n < 2 ^ 53 \<Longrightarrow> float64 (real n) = real n"
proof (cases "n = 0")
  case True
  then show ?thesis by (simp add: float64_def)
next
  case False
  assume "n < 2 ^ 53"
  then have "int n < 2 ^ 53" by (metis of_nat_less_iff of_nat_numeral of_nat_power)
  with False show ?thesis
    using float64_exact [of "int n" "real n" 0] by simp
qed

lemma float64_one: "float64 1 = 1"
  using float64_of_nat [of 1] by simp

lemma float64_gt0: "0 < x \<Longrightarrow> 0 < float64 x"
proof -
  assume x: "0 < x"
  have "(0::int) < 2 ^ 52" by simp
  then have "0 < round_half_even (x / 2 powi (binexp x - 52))"
    using mant_bounds(1) [OF x] by (rule less_le_trans)
  then show ?thesis by (simp add: float64_pos [OF x] zero_less_power_int)
qed

lemma py_truediv_le1:
  assumes "c \<le> M" "0 < M"
  shows "0 \<le> py_truediv c M" and "py_truediv c M \<le> 1"
proof -
  have x: "0 \<le> real c / real M" by simp
  then show "0 \<le> py_truediv c M" unfolding py_truediv_def by (rule float64_nonneg)
  have "real c / real M \<le> 1" using assms by simp
  with x have "float64 (real c / real M) \<le> float64 1" by (rule float64_mono)
  then show "py_truediv c M \<le> 1" by (simp add: py_truediv_def float64_one)
qed

lemma py_int_nonneg: "0 \<le> x \<Longrightarrow> py_int x = \<lfloor>x\<rfloor>"
  by (simp add: py_int_def)

lemma py_mul_nonneg: "0 \<le> r \<Longrightarrow> 0 \<le> py_mul d r"
  unfolding py_mul_def by (rule float64_nonneg) simp

lemma resized_le_dim:
  assumes "d < 2 ^ 53" "0 \<le> r" "r \<le> 1"
  shows "py_int (py_mul d r) \<le> int d"
proof -
  have "real d * r \<le> real d" using assms by (simp add: mult_left_le)
  moreover have "0 \<le> real d * r" using assms by simp
  ultimately have "float64 (real d * r) \<le> float64 (real d)" by (rule float64_mono [rotated])
  then have "py_mul d r \<le> real d" using assms(1) by (simp add: py_mul_def float64_of_nat)
  then have "\<lfloor>py_mul d r\<rfloor> \<le> int d" by (simp add: floor_le_iff)
  then show ?thesis using py_mul_nonneg [OF assms(2)] by (simp add: py_int_nonneg)
qed

lemma resized_max_le:
  assumes "c < M" "c < 2 ^ 52"
  shows "py_int (py_mul M (py_truediv c M)) \<le> int c"
proof -
  let ?x = "real c / real M"
  let ?r = "py_truediv c M"
  have M: "0 < real M" using assms by simp
  have r0: "0 \<le> ?r" using assms by (intro py_truediv_le1) simp_all
  have "\<bar>?r - ?x\<bar> \<le> ?x / 2 ^ 53"
    unfolding py_truediv_def by (rule float64_err) simp
  then have "?r \<le> ?x + ?x / 2 ^ 53" by linarith
  then have "real M * ?r \<le> real M * (?x + ?x / 2 ^ 53)"
    using M by (intro mult_left_mono) simp_all
  also have "\<dots> = real c + real c / 2 ^ 53" using M by (simp add: field_simps)
  also have "\<dots> \<le> real c + 1 / 2"
  proof -
    have "real c \<le> 2 ^ 52" using assms(2)
      by (metis less_imp_le of_nat_le_iff of_nat_numeral of_nat_power)
    then show ?thesis by simp
  qed
  finally have le: "real M * ?r \<le> real c + 1 / 2" .
  have half: "float64 (real c + 1 / 2) = real c + 1 / 2"
  proof (rule float64_exact [where m = "2 * int c + 1" and k = "-1"])
    show "0 < 2 * int c + 1" by simp
    have "int c < 2 ^ 52" using assms(2)
      by (metis of_nat_less_iff of_nat_numeral of_nat_power)
    then show "2 * int c + 1 < 2 ^ 53" by simp
    show "real c + 1 / 2 = real_of_int (2 * int c + 1) * 2 powi (- 1)"
      by (simp add: power_int_minus field_simps)
  qed
  have "0 \<le> real M * ?r" using r0 by simp
  then have "float64 (real M * ?r) \<le> float64 (real c + 1 / 2)"
    using le by (rule float64_mono)
  then have "py_mul M ?r \<le> real c + 1 / 2" by (simp add: py_mul_def half)
  then have "py_mul M ?r < real_of_int (int c + 1)" by simp
  then have "\<lfloor>py_mul M ?r\<rfloor> < int c + 1" by (simp only: floor_less_iff)
  then show ?thesis using py_mul_nonneg [OF r0] by (simp add: py_int_nonneg)
qed

lemma resized_error:
  assumes "0 < M" "d \<le> M"
  shows "\<bar>py_mul d (py_truediv c M) - real (d * c) / real M\<bar> \<le> 3 * real c / 2 ^ 53"
proof -
  define y where "y = real c / real M"
  define x where "x = real (d * c) / real M"
  define r where "r = py_truediv c M"
  define dr where "dr = real d * r"
  define f where "f = py_mul d r"
  have M: "0 < real M" using assms by simp
  have y0: "0 \<le> y" by (simp add: y_def)
  have x0: "0 \<le> x" by (simp add: x_def)
  have xy: "x = real d * y" by (simp add: x_def y_def)
  have xc: "x \<le> real c"
  proof -
    have "real d * real c \<le> real M * real c" using assms(2) by (intro mult_right_mono) simp_all
    then show ?thesis using M by (simp add: x_def field_simps)
  qed
  have r0: "0 \<le> r" unfolding r_def py_truediv_def by (rule float64_nonneg) simp
  have e1: "\<bar>r - y\<bar> \<le> y / 2 ^ 53"
    unfolding r_def y_def py_truediv_def by (rule float64_err) simp
  have "\<bar>dr - x\<bar> = real d * \<bar>r - y\<bar>"
  proof -
    have "dr - x = real d * (r - y)" by (simp add: dr_def xy algebra_simps)
    then show ?thesis by (simp add: abs_mult)
  qed
  also have "\<dots> \<le> real d * (y / 2 ^ 53)" using e1 by (intro mult_left_mono) simp_all
  also have "\<dots> = x / 2 ^ 53" by (simp add: xy)
  finally have e2: "\<bar>dr - x\<bar> \<le> x / 2 ^ 53" .
  have dr0: "0 \<le> dr" using r0 by (simp add: dr_def)
  have e3: "\<bar>f - dr\<bar> \<le> dr / 2 ^ 53"
    unfolding f_def py_mul_def dr_def [symmetric] using dr0 by (rule float64_err)
  have small: "x / 2 ^ 53 \<le> x"
  proof -
    have "x / 2 ^ 53 \<le> x / 1" using x0 by (intro divide_left_mono) simp_all
    then show ?thesis by simp
  qed
  have "dr \<le> 2 * x" using e2 small by linarith
  then have "dr / 2 ^ 53 \<le> 2 * x / 2 ^ 53" by (rule divide_right_mono) simp
  with e3 e2 have "\<bar>f - x\<bar> \<le> 2 * x / 2 ^ 53 + x / 2 ^ 53" by linarith
  also have "\<dots> = 3 * x / 2 ^ 53" by simp
  also have "\<dots> \<le> 3 * real c / 2 ^ 53" using xc by (intro divide_right_mono) simp_all
  finally show ?thesis by (simp add: f_def r_def x_def)
qed

lemma resized_floor:
  assumes "0 < M" "d \<le> M" "c * M < 2 ^ 51"
  shows "py_int (py_mul d (py_truediv c M)) = int (d * c div M)
         \<or> (M dvd d * c \<and> py_int (py_mul d (py_truediv c M)) = int (d * c div M) - 1)"
proof -
  define f where "f = py_mul d (py_truediv c M)"
  define x where "x = real (d * c) / real M"
  define q where "q = d * c div M"
  define s where "s = d * c mod M"
  define u where "u = 1 / real M"
  define t where "t = real s / real M"
  have M: "0 < real M" using assms by simp
  have f0: "0 \<le> f"
    unfolding f_def by (intro py_mul_nonneg) (simp add: py_truediv_def float64_nonneg)
  have eps: "3 * real c / 2 ^ 53 < u"
  proof -
    have "real (c * M) < 2 ^ 51" using assms(3)
      by (metis of_nat_less_iff of_nat_numeral of_nat_power)
    then have "3 * (real c * real M) < 2 ^ 53" by simp
    then show ?thesis using M by (simp add: u_def field_simps)
  qed
  have err: "\<bar>f - x\<bar> < u"
    using resized_error [OF assms(1,2), of c] eps unfolding f_def x_def by linarith
  have x: "x = real q + t"
  proof -
    have "real (d * c) = real (q * M + s)" by (simp add: q_def s_def)
    then have "real (d * c) = real q * real M + real s" by (simp only: of_nat_add of_nat_mult)
    then show ?thesis using M by (simp add: x_def t_def field_simps)
  qed
  have s: "s < M" using assms(1) by (simp add: s_def)
  have u1: "u \<le> 1" using assms(1) by (simp add: u_def)
  have tu: "t + u \<le> 1"
  proof -
    have "real s + 1 \<le> real M" using s by linarith
    then have "(real s + 1) / real M \<le> 1" using M by simp
    then show ?thesis by (simp add: t_def u_def add_divide_distrib)
  qed
  have "f < real q + 1" using err x tu by linarith
  then have "f < real_of_int (int q + 1)" by simp
  then have "\<lfloor>f\<rfloor> < int q + 1" by (simp only: floor_less_iff)
  then have fl_up: "\<lfloor>f\<rfloor> \<le> int q" by simp
  have pyf: "py_int f = \<lfloor>f\<rfloor>" using f0 by (rule py_int_nonneg)
  have "py_int f = int q \<or> (M dvd d * c \<and> py_int f = int q - 1)"
  proof (cases "s = 0")
    case True
    then have "t = 0" by (simp add: t_def)
    then have "real q - 1 < f" using err x u1 by linarith
    then have "real_of_int (int q - 1) < f" by simp
    then have "int q - 1 \<le> \<lfloor>f\<rfloor>" by (simp only: le_floor_iff)
    moreover have "M dvd d * c" using True by (simp add: s_def dvd_eq_mod_eq_0)
    ultimately show ?thesis using fl_up pyf by linarith
  next
    case False
    then have "1 \<le> real s" by simp
    then have "1 / real M \<le> real s / real M" using M by (simp add: divide_right_mono)
    then have "u \<le> t" by (simp add: u_def t_def)
    then have "real q \<le> f" using err x by linarith
    then have "real_of_int (int q) \<le> f" by simp
    then have "int q \<le> \<lfloor>f\<rfloor>" by (simp only: le_floor_iff)
    then show ?thesis using fl_up pyf by linarith
  qed
  then show ?thesis by (simp add: f_def q_def)
qed

lemma ratio_threshold:
  assumes "0 < n" "c \<le> n" "n < 2 ^ 47"
  shows "float64 (95 / 100) < py_truediv c n \<longleftrightarrow> 19 * n < 20 * c"
proof
  assume "float64 (95 / 100) < py_truediv c n"
  show "19 * n < 20 * c"
  proof (rule ccontr)
    assume "\<not> 19 * n < 20 * c"
    then have "20 * c \<le> 19 * n" by simp
    then have "real (20 * c) \<le> real (19 * n)" by (simp only: of_nat_le_iff)
    then have "real c / real n \<le> 95 / 100" using assms(1) by (simp add: field_simps)
    then have "float64 (real c / real n) \<le> float64 (95 / 100)"
      by (intro float64_mono) simp_all
    with \<open>float64 (95 / 100) < py_truediv c n\<close> show False by (simp add: py_truediv_def)
  qed
next
  assume gt: "19 * n < 20 * c"
  define x where "x = real c / real n"
  define g where "g = 1 / (20 * real n)"
  define fx where "fx = float64 x"
  define k where "k = float64 (95 / 100)"
  have n: "0 < real n" using assms by simp
  have "19 * n + 1 \<le> 20 * c" using gt by simp
  then have "real (19 * n + 1) \<le> real (20 * c)" by (simp only: of_nat_le_iff)
  then have "19 * real n + 1 \<le> 20 * real c" by simp
  then have "(19 * real n + 1) / (20 * real n) \<le> (20 * real c) / (20 * real n)"
    using n by (intro divide_right_mono) simp_all
  moreover have "(19 * real n + 1) / (20 * real n) = 95 / 100 + g"
    using n by (simp add: g_def add_divide_distrib)
  moreover have "(20 * real c) / (20 * real n) = x" by (simp add: x_def)
  ultimately have gap: "95 / 100 + g \<le> x" by simp
  have x1: "x \<le> 1" using assms by (simp add: x_def)
  have "\<bar>fx - x\<bar> \<le> x / 2 ^ 53" unfolding fx_def by (rule float64_err) (simp add: x_def)
  moreover have "x / 2 ^ 53 \<le> 1 / 2 ^ 53" using x1 by (intro divide_right_mono) simp_all
  ultimately have lo: "x - 1 / 2 ^ 53 \<le> fx" by linarith
  have "\<bar>k - 95 / 100\<bar> \<le> (95 / 100) / 2 ^ 53" unfolding k_def by (rule float64_err) simp
  moreover have "(95 / 100) / 2 ^ 53 < (1::real) / 2 ^ 53" by simp
  ultimately have hi: "k < 95 / 100 + 1 / 2 ^ 53" by linarith
  have "real n < 2 ^ 47" using assms(3)
    by (metis of_nat_less_iff of_nat_numeral of_nat_power)
  then have "20 * real n < 2 ^ 52" by simp
  then have "1 / 2 ^ 52 < 1 / (20 * real n)" using n by (intro divide_strict_left_mono) simp_all
  then have "1 / 2 ^ 53 + 1 / 2 ^ 53 < g" by (simp add: g_def)
  with gap lo hi have "k < fx" by linarith
  then show "float64 (95 / 100) < py_truediv c n"
    by (simp add: py_truediv_def k_def fx_def x_def)
qed

lemma file_size_exact:
  assumes "n < 2 ^ 53"
  shows "py_truediv n (1024 * 1024) = real n / (1024 * 1024)"
proof (cases "n = 0")
  case True
  then show ?thesis by (simp add: py_truediv_def float64_def)
next
  case False
  have "int n < 2 ^ 53" using assms
    by (metis of_nat_less_iff of_nat_numeral of_nat_power)
  then have "float64 (real n / (1024 * 1024)) = real n / (1024 * 1024)"
    using False by (intro float64_exact [where m = "int n" and k = "-20"])
      (simp_all add: power_int_minus field_simps)
  then show ?thesis by (simp add: py_truediv_def)
qed


section \<open>Auxiliary facts about the handlers\<close>

lemma example_env_sel [simp]:
  "rembg_new_session (example_env loader rm decoded) = loader"
  "rembg_remove (example_env loader rm decoded) = rm"
  "lanczos (example_env loader rm decoded) = (\<lambda>sz im. bands im)"
  "pil_convert (example_env loader rm decoded) = example_convert"
  "pil_format (example_env loader rm decoded) = (\<lambda>bs. Some ''PNG'')"
  "pil_save (example_env loader rm decoded) = (\<lambda>im fmt. Inr (concat (bands im)))"
  "gaussian_blur (example_env loader rm decoded) = (\<lambda>r b. b)"
  "pil_open (example_env loader rm decoded) = (\<lambda>bs. decoded)"
  by (simp_all add: example_env_def)

subsection \<open>Error responses\<close>

lemma invalid_type_eq:
  "invalid_type = HTTPException 400
     ''Invalid file type. Allowed types: image/png, image/jpeg, image/jpg, image/webp''"
  by (simp add: invalid_type_def allowed_types_def)

lemma py_range_max_retries: "py_range max_retries = [0, 1]"
  by (simp add: py_range_def max_retries_def upt_rec)

lemma to_http_invalid_type: "to_http e = invalid_type \<longleftrightarrow> e = invalid_type"
  by (cases e) (simp_all add: to_http_def invalid_type_eq)

lemma preprocess_image_raises_Error:
  "preprocess_image env im ms = Inl e \<Longrightarrow> \<exists>m. e = Error m"
  by (auto simp: preprocess_image_def resize_def convert_if_needed_def convert_def Let_def
      split: if_splits sum.splits prod.splits)

lemma postprocess_image_raises_Error:
  "postprocess_image env im sz r = Inl e \<Longrightarrow> \<exists>m. e = Error m"
  by (auto simp: postprocess_image_def refine_edges_def resize_def Let_def
      split: if_splits sum.splits list.splits)

lemma json_response_raises_Error:
  "json_response env up orig out osz = Inl e \<Longrightarrow> \<exists>m. e = Error m"
  by (auto simp: json_response_def split: sum.splits dest: postprocess_image_raises_Error)

lemma binary_response_raises_Error:
  "binary_response env up out osz = Inl e \<Longrightarrow> \<exists>m. e = Error m"
  by (auto simp: binary_response_def Let_def split: sum.splits option.splits if_splits
      dest: postprocess_image_raises_Error)

lemma attempt_json_raises_500:
  "attempt_json env p img a v st = (Inl e, st') \<Longrightarrow> \<exists>d. e = HTTPException 500 d"
  by (auto simp: attempt_json_def Let_def split: prod.splits sum.splits if_splits)

lemma retry_json_raises_500:
  "retry_json env p img as v st = (Inl e, st') \<Longrightarrow> \<exists>d. e = HTTPException 500 d"
proof (induction as arbitrary: v st)
  case Nil
  then show ?case by simp
next
  case (Cons a as)
  then show ?case
    by (auto split: prod.splits sum.splits ctl.splits dest: attempt_json_raises_500)
qed

lemma attempt_binary_raises_500:
  "attempt_binary env p img a v st = (Inl e, st') \<Longrightarrow> \<exists>d. e = HTTPException 500 d"
  by (auto simp: attempt_binary_def Let_def split: prod.splits sum.splits if_splits)

lemma retry_binary_raises_500:
  "retry_binary env p img as v st = (Inl e, st') \<Longrightarrow> \<exists>d. e = HTTPException 500 d"
proof (induction as arbitrary: v st)
  case Nil
  then show ?case by simp
next
  case (Cons a as)
  then show ?case
    by (auto split: prod.splits sum.splits ctl.splits dest: attempt_binary_raises_500)
qed

lemma read_upload_invalid_type:
  "read_upload env up = Inl invalid_type \<longleftrightarrow> content_type up \<notin> Some ` set allowed_types"
  by (auto simp: read_upload_def Let_def invalid_type_eq
      split: sum.splits prod.splits dest: preprocess_image_raises_Error)

lemma remove_background_invalid_type:
  "fst (remove_background env up p st) = Inl invalid_type
     \<longleftrightarrow> content_type up \<notin> Some ` set allowed_types"
proof (cases "read_upload env up")
  case (Inl e)
  then show ?thesis
    using read_upload_invalid_type [of env up]
    by (simp add: remove_background_def to_http_invalid_type)
next
  case (Inr r)
  then have ok: "\<not> content_type up \<notin> Some ` set allowed_types"
    using read_upload_invalid_type [of env up] by auto
  obtain orig img osz where r: "r = (orig, img, osz)" by (cases r)
  have "fst (remove_background env up p st) \<noteq> Inl invalid_type"
    using Inr r
    by (auto simp: remove_background_def to_http_def invalid_type_eq
        split: prod.splits sum.splits option.splits exn.splits
        dest!: retry_json_raises_500 json_response_raises_Error)
  with ok show ?thesis by simp
qed

lemma remove_background_binary_invalid_type:
  "fst (remove_background_binary env up p st) = Inl invalid_type
     \<longleftrightarrow> content_type up \<notin> Some ` set allowed_types"
proof (cases "read_upload env up")
  case (Inl e)
  then show ?thesis
    using read_upload_invalid_type [of env up]
    by (simp add: remove_background_binary_def to_http_invalid_type)
next
  case (Inr r)
  then have ok: "\<not> content_type up \<notin> Some ` set allowed_types"
    using read_upload_invalid_type [of env up] by auto
  obtain orig img osz where r: "r = (orig, img, osz)" by (cases r)
  have "fst (remove_background_binary env up p st) \<noteq> Inl invalid_type"
    using Inr r
    by (auto simp: remove_background_binary_def to_http_def invalid_type_eq
        split: prod.splits sum.splits option.splits exn.splits
        dest!: retry_binary_raises_500 binary_response_raises_Error)
  with ok show ?thesis by simp
qed

subsection \<open>The two iterations of the retry loop\<close>

lemma validate_result_Inr: "\<exists>ok. validate_result original processed = Inr ok"
  by (cases "validate_checks processed") (auto simp: validate_result_def)

lemma validate_result_not_Inl [simp]: "validate_result original processed \<noteq> Inl e"
  using validate_result_Inr [of original processed] by auto

lemma retry_json_two:
  assumes first: "try_body_json env p img v st = (r0, v1, st1)"
    and second: "try_body_json env p img (case r0 of Inl e \<Rightarrow> v1\<lparr>last_error := Some e\<rparr> | Inr c \<Rightarrow> v1) st1
                   = (r1, v2, st2)"
    and fb: "call_remove env img None p st2 = (rf, st3)"
  shows "retry_json env p img (py_range max_retries) v st =
           (if r0 = Inr Break then (Inr v1, st1)
            else case r1 of
                   Inr c \<Rightarrow> (Inr v2, st2)
                 | Inl e \<Rightarrow>
                     (case rf of
                        Inr out \<Rightarrow> (Inr (v2\<lparr>last_error := Some e, output_image := Some out\<rparr>), st3)
                      | Inl fe \<Rightarrow>
                          (Inl (HTTPException 500 (''Background removal failed: '' @ fe)), st3)))"
proof (cases r0)
  case (Inl e0)
  with first second fb show ?thesis
    unfolding py_range_max_retries
    by (cases r1; cases rf)
       (auto simp: attempt_json_def max_retries_def Let_def
             split: ctl.splits)
next
  case (Inr c0)
  with first second fb show ?thesis
    unfolding py_range_max_retries
    by (cases c0; cases r1; cases rf)
       (auto simp: attempt_json_def max_retries_def Let_def
             split: ctl.splits)
qed

lemma retry_binary_two:
  assumes first: "try_body_binary env p img v st = (r0, v1, st1)"
    and second: "try_body_binary env p img v1 st1 = (r1, v2, st2)"
    and fb: "call_remove env img None p st2 = (rf, st3)"
  shows "retry_binary env p img (py_range max_retries) v st =
           (if r0 = Inr Break then (Inr v1, st1)
            else case r1 of
                   Inr c \<Rightarrow> (Inr v2, st2)
                 | Inl e \<Rightarrow>
                     (case rf of
                        Inr out \<Rightarrow> (Inr (Some out), st3)
                      | Inl fe \<Rightarrow>
                          (Inl (HTTPException 500 (''Background removal failed: '' @ fe)), st3)))"
proof (cases r0)
  case (Inl e0)
  with first second fb show ?thesis
    unfolding py_range_max_retries
    by (cases r1; cases rf)
       (auto simp: attempt_binary_def max_retries_def Let_def
             split: ctl.splits)
next
  case (Inr c0)
  with first second fb show ?thesis
    unfolding py_range_max_retries
    by (cases c0; cases r1; cases rf)
       (auto simp: attempt_binary_def max_retries_def Let_def
             split: ctl.splits)
qed

subsection \<open>What each step adds to the history\<close>

lemma inferences_append [simp]: "inferences (xs @ ys) = inferences xs @ inferences ys"
  by (induction xs rule: inferences.induct) simp_all

lemma validated_append [simp]: "validated (xs @ ys) = validated xs @ validated ys"
  by (induction xs rule: validated.induct) simp_all

lemma loads_append [simp]: "loads (xs @ ys) = loads xs @ loads ys"
  by (induction xs rule: loads.induct) simp_all

lemma primary_calls_append [simp]:
  "primary_calls (xs @ ys) = primary_calls xs + primary_calls ys"
  by (simp add: primary_calls_def)

lemma fallback_calls_append [simp]:
  "fallback_calls (xs @ ys) = fallback_calls xs + fallback_calls ys"
  by (simp add: fallback_calls_def)






subsection \<open>Resizing and mode conversion\<close>


lemma resize_size: "resize env im sz = Inr im' \<Longrightarrow> size_of im' = sz"
  by (auto simp: resize_def size_of_def split: if_splits)

lemma convert_Inr:
  "convert env im m = Inr im1 \<Longrightarrow>
   width im1 = width im \<and> height im1 = height im \<and> mode im1 = m"
  by (auto simp: convert_def split: sum.splits prod.splits)

lemma convert_raises_Error: "convert env im m = Inl e \<Longrightarrow> \<exists>msg. e = Error msg"
  by (auto simp: convert_def split: sum.splits prod.splits)

lemma convert_if_needed_size:
  assumes "convert_if_needed env im = Inr im1"
  shows "width im1 = width im" and "height im1 = height im"
proof -
  have "width im1 = width im \<and> height im1 = height im"
  proof (cases "mode im \<in> {''RGB'', ''RGBA''}")
    case True
    with assms have "im1 = im" by (auto simp: convert_if_needed_def)
    then show ?thesis by simp
  next
    case False
    with assms have "convert env im ''RGBA'' = Inr im1 \<or> convert env im ''RGB'' = Inr im1"
      by (simp add: convert_if_needed_def split: if_splits)
    then show ?thesis using convert_Inr by blast
  qed
  then show "width im1 = width im" and "height im1 = height im" by simp_all
qed


lemma convert_if_needed_raises_Error:
  "convert_if_needed env im = Inl e \<Longrightarrow> \<exists>msg. e = Error msg"
  by (auto simp: convert_if_needed_def split: if_splits dest: convert_raises_Error)

lemma convert_if_needed_keeps:
  "mode im = ''RGB'' \<or> mode im = ''RGBA'' \<Longrightarrow> convert_if_needed env im = Inr im"
  by (auto simp: convert_if_needed_def)

lemma preprocess_image_eq:
  "preprocess_image env im max_size =
     (case convert_if_needed env im of
        Inl e \<Rightarrow> Inl e
      | Inr im1 \<Rightarrow>
          if max (width im) (height im) > max_size
          then (case resize env im1
                   (py_int (py_mul (width im) (py_truediv max_size (max (width im) (height im)))),
                    py_int (py_mul (height im) (py_truediv max_size (max (width im) (height im)))))
                of Inl e \<Rightarrow> Inl e | Inr image2 \<Rightarrow> Inr (image2, size_of im))
          else Inr (im1, size_of im))"
proof (cases "convert_if_needed env im")
  case (Inl e)
  then show ?thesis by (simp add: preprocess_image_def)
next
  case (Inr im1)
  then show ?thesis
    by (simp add: preprocess_image_def Let_def convert_if_needed_size [OF Inr])
qed

subsection \<open>The cache over the life of the process\<close>

lemma laterI:
  assumes "trace st' = trace st @ evs" "MODEL_SESSIONS st \<subseteq>\<^sub>m MODEL_SESSIONS st'"
    "set (loads evs) \<inter> dom (MODEL_SESSIONS st) = {}"
  shows "later st st'"
  using assms by (simp add: later_def new_events_def)

lemma laterD:
  assumes "later st st'"
  obtains evs where "trace st' = trace st @ evs" "MODEL_SESSIONS st \<subseteq>\<^sub>m MODEL_SESSIONS st'"
    "set (loads evs) \<inter> dom (MODEL_SESSIONS st) = {}"
proof -
  from assms have t: "take (length (trace st)) (trace st') = trace st"
    and m: "MODEL_SESSIONS st \<subseteq>\<^sub>m MODEL_SESSIONS st'"
    and l: "set (loads (new_events st st')) \<inter> dom (MODEL_SESSIONS st) = {}"
    by (simp_all add: later_def)
  have "trace st' = trace st @ new_events st st'"
    unfolding new_events_def using t by (metis append_take_drop_id)
  then show ?thesis using m l by (rule that)
qed

lemma later_refl [simp]: "later st st"
  by (rule laterI [where evs = "[]"]) simp_all

lemma later_trans:
  assumes "later st st1" "later st1 st2"
  shows "later st st2"
proof -
  from assms(1) obtain e1 where 1: "trace st1 = trace st @ e1"
    "MODEL_SESSIONS st \<subseteq>\<^sub>m MODEL_SESSIONS st1"
    "set (loads e1) \<inter> dom (MODEL_SESSIONS st) = {}" by (rule laterD)
  from assms(2) obtain e2 where 2: "trace st2 = trace st1 @ e2"
    "MODEL_SESSIONS st1 \<subseteq>\<^sub>m MODEL_SESSIONS st2"
    "set (loads e2) \<inter> dom (MODEL_SESSIONS st1) = {}" by (rule laterD)
  have d: "dom (MODEL_SESSIONS st) \<subseteq> dom (MODEL_SESSIONS st1)"
    using 1(2) by (rule map_le_implies_dom_le)
  show ?thesis
  proof (rule laterI [where evs = "e1 @ e2"])
    show "trace st2 = trace st @ e1 @ e2" using 1(1) 2(1) by simp
    show "MODEL_SESSIONS st \<subseteq>\<^sub>m MODEL_SESSIONS st2" using 1(2) 2(2) by (rule map_le_trans)
    have "set (loads e2) \<inter> dom (MODEL_SESSIONS st) = {}" using 2(3) d by blast
    with 1(3) show "set (loads (e1 @ e2)) \<inter> dom (MODEL_SESSIONS st) = {}"
      by (simp add: Int_Un_distrib2)
  qed
qed

lemma get_model_session_hit:
  "MODEL_SESSIONS st m = Some s \<Longrightarrow> get_model_session env m st = (Inr s, st)"
  by (simp add: get_model_session_def)

lemma get_model_session_miss:
  "MODEL_SESSIONS st m = None \<Longrightarrow> rembg_new_session env (trace st) m = Inr s \<Longrightarrow>
   get_model_session env m st =
     (Inr s, st\<lparr>MODEL_SESSIONS := (MODEL_SESSIONS st)(m \<mapsto> s), trace := trace st @ [Load m]\<rparr>)"
  by (simp add: get_model_session_def record_event_def)

lemma get_model_session_cached:
  "get_model_session env m st = (Inr s, st') \<Longrightarrow> MODEL_SESSIONS st' m = Some s"
  by (auto simp: get_model_session_def record_event_def split: option.splits sum.splits)

lemma get_model_session_later: "later st (snd (get_model_session env m st))"
proof (cases "MODEL_SESSIONS st m")
  case (Some s)
  then show ?thesis by (simp add: get_model_session_hit)
next
  case None
  show ?thesis
  proof (rule laterI [where evs = "[Load m]"])
    show "trace (snd (get_model_session env m st)) = trace st @ [Load m]"
      using None by (simp add: get_model_session_def record_event_def split: sum.splits)
    show "MODEL_SESSIONS st \<subseteq>\<^sub>m MODEL_SESSIONS (snd (get_model_session env m st))"
      using None
      by (auto simp: get_model_session_def record_event_def map_le_def split: sum.splits)
    show "set (loads [Load m]) \<inter> dom (MODEL_SESSIONS st) = {}"
      using None by (simp add: domIff)
  qed
qed

lemma call_remove_later: "later st (snd (call_remove env img s p st))"
  by (rule laterI [where evs = "[Infer s]"]) (simp_all add: call_remove_def record_event_def)

lemma record_event_Validate_later: "later st (record_event (Validate x) st)"
  by (rule laterI [where evs = "[Validate x]"]) (simp_all add: record_event_def)

lemma try_body_json_later:
  assumes "try_body_json env p img v st = (r, v', st')"
  shows "later st st'"
proof -
  obtain g st1 where g: "get_model_session env (model p) st = (g, st1)"
    by (cases "get_model_session env (model p) st")
  have l1: "later st st1" using get_model_session_later [of st env "model p"] g by simp
  show ?thesis
  proof (cases g)
    case (Inl e)
    with assms g l1 show ?thesis by (simp add: try_body_json_def)
  next
    case (Inr s)
    obtain c st2 where c: "call_remove env img (Some s) p st1 = (c, st2)"
      by (cases "call_remove env img (Some s) p st1")
    have l2: "later st st2"
      using l1 call_remove_later [of st1 env img "Some s" p] c by (auto intro: later_trans)
    have l3: "later st (record_event (Validate x) st2)" for x
      using l2 record_event_Validate_later by (rule later_trans)
    from assms g Inr c l2 l3 show ?thesis
      by (cases c) (auto simp: try_body_json_def Let_def split: sum.splits if_splits)
  qed
qed

lemma try_body_binary_later:
  assumes "try_body_binary env p img v st = (r, v', st')"
  shows "later st st'"
proof -
  obtain g st1 where g: "get_model_session env (model p) st = (g, st1)"
    by (cases "get_model_session env (model p) st")
  have l1: "later st st1" using get_model_session_later [of st env "model p"] g by simp
  show ?thesis
  proof (cases g)
    case (Inl e)
    with assms g l1 show ?thesis by (simp add: try_body_binary_def)
  next
    case (Inr s)
    obtain c st2 where c: "call_remove env img (Some s) p st1 = (c, st2)"
      by (cases "call_remove env img (Some s) p st1")
    have l2: "later st st2"
      using l1 call_remove_later [of st1 env img "Some s" p] c by (auto intro: later_trans)
    have l3: "later st (record_event (Validate x) st2)" for x
      using l2 record_event_Validate_later by (rule later_trans)
    from assms g Inr c l2 l3 show ?thesis
      by (cases c) (auto simp: try_body_binary_def Let_def split: sum.splits if_splits)
  qed
qed

lemma attempt_json_later:
  assumes "attempt_json env p img a v st = (r, st')"
  shows "later st st'"
proof -
  obtain r0 v1 st1 where t: "try_body_json env p img v st = (r0, v1, st1)"
    by (cases "try_body_json env p img v st")
  have l1: "later st st1" using t by (rule try_body_json_later)
  have l2: "later st (snd (call_remove env img None p st1))"
    using l1 call_remove_later by (rule later_trans)
  from assms t l1 l2 show ?thesis
    by (cases r0) (auto simp: attempt_json_def Let_def split: prod.splits sum.splits if_splits)
qed

lemma attempt_binary_later:
  assumes "attempt_binary env p img a v st = (r, st')"
  shows "later st st'"
proof -
  obtain r0 v1 st1 where t: "try_body_binary env p img v st = (r0, v1, st1)"
    by (cases "try_body_binary env p img v st")
  have l1: "later st st1" using t by (rule try_body_binary_later)
  have l2: "later st (snd (call_remove env img None p st1))"
    using l1 call_remove_later by (rule later_trans)
  from assms t l1 l2 show ?thesis
    by (cases r0) (auto simp: attempt_binary_def Let_def split: prod.splits sum.splits if_splits)
qed

lemma retry_json_later: "retry_json env p img as v st = (r, st') \<Longrightarrow> later st st'"
proof (induction as arbitrary: v st)
  case Nil
  then show ?case by simp
next
  case (Cons a as)
  obtain r1 st1 where a: "attempt_json env p img a v st = (r1, st1)"
    by (cases "attempt_json env p img a v st")
  have l1: "later st st1" using a by (rule attempt_json_later)
  show ?case
  proof (cases r1)
    case (Inl e)
    with Cons.prems a l1 show ?thesis by simp
  next
    case (Inr cv)
    obtain c v1 where cv: "cv = (c, v1)" by (cases cv)
    show ?thesis
    proof (cases c)
      case Break
      with Cons.prems a Inr cv l1 show ?thesis by simp
    next
      case Continue
      with Cons.prems a Inr cv have "retry_json env p img as v1 st1 = (r, st')" by simp
      then have "later st1 st'" by (rule Cons.IH)
      with l1 show ?thesis by (rule later_trans)
    qed
  qed
qed

lemma retry_binary_later: "retry_binary env p img as v st = (r, st') \<Longrightarrow> later st st'"
proof (induction as arbitrary: v st)
  case Nil
  then show ?case by simp
next
  case (Cons a as)
  obtain r1 st1 where a: "attempt_binary env p img a v st = (r1, st1)"
    by (cases "attempt_binary env p img a v st")
  have l1: "later st st1" using a by (rule attempt_binary_later)
  show ?case
  proof (cases r1)
    case (Inl e)
    with Cons.prems a l1 show ?thesis by simp
  next
    case (Inr cv)
    obtain c v1 where cv: "cv = (c, v1)" by (cases cv)
    show ?thesis
    proof (cases c)
      case Break
      with Cons.prems a Inr cv l1 show ?thesis by simp
    next
      case Continue
      with Cons.prems a Inr cv have "retry_binary env p img as v1 st1 = (r, st')" by simp
      then have "later st1 st'" by (rule Cons.IH)
      with l1 show ?thesis by (rule later_trans)
    qed
  qed
qed

lemma remove_background_later: "later st (snd (remove_background env up p st))"
proof (cases "read_upload env up")
  case (Inl e)
  then show ?thesis by (simp add: remove_background_def)
next
  case (Inr t)
  obtain orig img osz where t: "t = (orig, img, osz)" by (cases t)
  obtain r st1 where r: "retry_json env p img (py_range max_retries)
      \<lparr>output_image = None, last_error = None\<rparr> st = (r, st1)"
    by (cases "retry_json env p img (py_range max_retries)
      \<lparr>output_image = None, last_error = None\<rparr> st")
  then have "later st st1" by (rule retry_json_later)
  moreover have "snd (remove_background env up p st) = st1"
    using Inr t r by (simp add: remove_background_def split: sum.splits option.splits)
  ultimately show ?thesis by simp
qed

lemma remove_background_binary_later: "later st (snd (remove_background_binary env up p st))"
proof (cases "read_upload env up")
  case (Inl e)
  then show ?thesis by (simp add: remove_background_binary_def)
next
  case (Inr t)
  obtain orig img osz where t: "t = (orig, img, osz)" by (cases t)
  obtain r st1 where r: "retry_binary env p img (py_range max_retries) None st = (r, st1)"
    by (cases "retry_binary env p img (py_range max_retries) None st")
  then have "later st st1" by (rule retry_binary_later)
  moreover have "snd (remove_background_binary env up p st) = st1"
    using Inr t r by (simp add: remove_background_binary_def split: sum.splits option.splits)
  ultimately show ?thesis by simp
qed

lemma perform_later: "later st (perform env a st)"
  by (cases a)
     (simp_all add: get_model_session_later remove_background_later remove_background_binary_later)

lemma run_later: "later st (run env as st)"
proof (induction as arbitrary: st)
  case Nil
  show ?case by simp
next
  case (Cons a as)
  have "later st (perform env a st)" by (rule perform_later)
  moreover have "later (perform env a st) (run env as (perform env a st))" by (rule Cons.IH)
  ultimately show ?case by (simp add: later_trans)
qed

lemma later_cached:
  assumes "later st st'" "MODEL_SESSIONS st m = Some s"
  shows "MODEL_SESSIONS st' m = Some s" and "m \<notin> set (loads (new_events st st'))"
proof -
  from assms(1) have le: "MODEL_SESSIONS st \<subseteq>\<^sub>m MODEL_SESSIONS st'"
    and l: "set (loads (new_events st st')) \<inter> dom (MODEL_SESSIONS st) = {}"
    by (simp_all add: later_def)
  from assms(2) have d: "m \<in> dom (MODEL_SESSIONS st)" by (simp add: domI)
  with le have "MODEL_SESSIONS st m = MODEL_SESSIONS st' m" by (simp add: map_le_def)
  with assms(2) show "MODEL_SESSIONS st' m = Some s" by simp
  from l d show "m \<notin> set (loads (new_events st st'))" by auto
qed

subsection \<open>The decision of the validator\<close>

lemma validate_checks_rule:
  assumes "3 < length (bands p)" "length (bands p ! 3) < 2 ^ 47"
  shows "validate_checks p =
     Inr (if mode p \<noteq> ''RGBA'' then False
          else if card (set (bands p ! 3)) < 2 then False
          else if 95 / 100 < real (length (filter (\<lambda>a. a < 10) (bands p ! 3)))
                               / real (length (bands p ! 3)) then False
          else True)"
proof (cases "mode p = ''RGBA''")
  case False
  then show ?thesis by (simp add: validate_checks_def)
next
  case True
  define alpha where "alpha = bands p ! 3"
  define c where "c = length (filter (\<lambda>a. a < 10) alpha)"
  define n where "n = length alpha"
  have u: "length (remdups alpha) = card (set alpha)" by (rule length_remdups_card_conv)
  show ?thesis
  proof (cases "card (set alpha) < 2")
    case True
    with \<open>mode p = ''RGBA''\<close> assms(1) u show ?thesis
      by (simp add: validate_checks_def Let_def alpha_def)
  next
    case False
    then have "alpha \<noteq> []" by auto
    then have n: "0 < n" by (simp add: n_def)
    have cn: "c \<le> n" by (simp add: c_def n_def)
    have n47: "n < 2 ^ 47" using assms(2) by (simp add: n_def alpha_def)
    have "float64 (95 / 100) < py_truediv c n \<longleftrightarrow> 19 * n < 20 * c"
      using n cn n47 by (rule ratio_threshold)
    also have "\<dots> \<longleftrightarrow> real (19 * n) < real (20 * c)" by (simp only: of_nat_less_iff)
    also have "\<dots> \<longleftrightarrow> 95 / 100 < real c / real n" using n by (simp add: field_simps)
    finally have t: "float64 (95 / 100) < py_truediv c n \<longleftrightarrow> 95 / 100 < real c / real n" .
    from False \<open>mode p = ''RGBA''\<close> assms(1) u t show ?thesis
      by (simp add: validate_checks_def Let_def alpha_def [symmetric] c_def [symmetric]
          n_def [symmetric])
  qed
qed

lemma validate_result_rule:
  assumes "mode p = ''RGBA'' \<longrightarrow> 3 < length (bands p) \<and> length (bands p ! 3) < 2 ^ 47"
  shows "validate_result original p =
     Inr (if mode p \<noteq> ''RGBA'' then False
          else if card (set (bands p ! 3)) < 2 then False
          else if 95 / 100 < real (length (filter (\<lambda>a. a < 10) (bands p ! 3)))
                               / real (length (bands p ! 3)) then False
          else True)"
proof (cases "mode p = ''RGBA''")
  case True
  with assms show ?thesis by (simp add: validate_result_def validate_checks_rule)
next
  case False
  then show ?thesis by (simp add: validate_result_def validate_checks_def)
qed

lemma validate_result_cutout [simp]: "validate_result original cutout = Inr True"
proof -
  have "card (set [0, 255, 255, 0::nat]) = 2"
    by (subst length_remdups_card_conv [symmetric]) simp
  then show ?thesis
    using validate_result_rule [of cutout original] by (simp add: cutout_def)
qed

lemma validate_result_opaque [simp]: "validate_result original opaque = Inr False"
  using validate_result_rule [of opaque original] by (simp add: opaque_def)

subsection \<open>Downsampled dimensions\<close>

lemma py_int_float64: "0 \<le> x \<Longrightarrow> py_int (float64 x) = \<lfloor>float64 x\<rfloor>"
  by (simp add: py_int_def float64_nonneg)

lemma downsample_4210: "py_int (py_mul 4210 (py_truediv 4000 4210)) = 3999"
proof -
  have "\<lfloor>float64 (4210 * float64 (4000 / 4210))\<rfloor> = 3999" by code_simp
  then show ?thesis
    by (simp add: py_mul_def py_truediv_def py_int_float64 float64_nonneg)
qed

lemma downsample_4001: "py_int (py_mul 4001 (py_truediv 4000 4001)) = 4000"
proof -
  have "\<lfloor>float64 (4001 * float64 (4000 / 4001))\<rfloor> = 4000" by code_simp
  then show ?thesis
    by (simp add: py_mul_def py_truediv_def py_int_float64 float64_nonneg)
qed

lemma downsample_4001_thin: "py_int (py_mul (Suc 0) (py_truediv 4000 4001)) = 0"
proof -
  have "\<lfloor>float64 (float64 (4000 / 4001))\<rfloor> = 0" by code_simp
  then show ?thesis
    by (simp add: py_mul_def py_truediv_def py_int_float64 float64_nonneg)
qed

lemma downsample_4500:
  "py_int (py_mul 4500 (py_truediv 4000 4500)) = 4000"
  "py_int (py_mul 3000 (py_truediv 4000 4500)) = 2666"
proof -
  have "\<lfloor>float64 (4500 * float64 (4000 / 4500))\<rfloor> = 4000" by code_simp
  then show "py_int (py_mul 4500 (py_truediv 4000 4500)) = 4000"
    by (simp add: py_mul_def py_truediv_def py_int_float64 float64_nonneg)
  have "\<lfloor>float64 (3000 * float64 (4000 / 4500))\<rfloor> = 2666" by code_simp
  then show "py_int (py_mul 3000 (py_truediv 4000 4500)) = 2666"
    by (simp add: py_mul_def py_truediv_def py_int_float64 float64_nonneg)
qed

lemma blank_sel [simp]:
  "width (blank w h) = w" "height (blank w h) = h" "mode (blank w h) = ''RGB''"
  "transparency (blank w h) = False"
  by (simp_all add: blank_def)

lemma py_mul_mono:
  assumes "0 \<le> r" "d \<le> d'"
  shows "py_int (py_mul d r) \<le> py_int (py_mul d' r)"
proof -
  have "real d * r \<le> real d' * r" using assms by (intro mult_right_mono) simp_all
  moreover have "0 \<le> real d * r" using assms by simp
  ultimately have "float64 (real d * r) \<le> float64 (real d' * r)" by (rule float64_mono [rotated])
  then have "\<lfloor>py_mul d r\<rfloor> \<le> \<lfloor>py_mul d' r\<rfloor>" unfolding py_mul_def by (rule floor_mono)
  then show ?thesis using assms(1) by (simp add: py_int_nonneg py_mul_nonneg)
qed

lemma py_mul_zero: "py_int (py_mul d (py_truediv 0 M)) = 0"
  by (simp add: py_mul_def py_truediv_def float64_def py_int_def)

lemma preprocess_image_original_size:
  "preprocess_image env im max_size = Inr (im', original_size) \<Longrightarrow> original_size = size_of im"
  by (cases "convert_if_needed env im")
     (auto simp: preprocess_image_eq split: if_splits sum.splits)

lemma preprocess_image_small:
  "preprocess_image env im max_size = Inr (im', original_size) \<Longrightarrow>
   max (width im) (height im) \<le> max_size \<Longrightarrow> size_of im' = size_of im"
  by (cases "convert_if_needed env im")
     (auto simp: preprocess_image_eq size_of_def convert_if_needed_size split: if_splits)

lemma preprocess_image_large:
  assumes "preprocess_image env im max_size = Inr (im', original_size)"
    and "max_size < max (width im) (height im)"
  shows "int (width im') =
           py_int (py_mul (width im) (py_truediv max_size (max (width im) (height im))))"
    and "int (height im') =
           py_int (py_mul (height im) (py_truediv max_size (max (width im) (height im))))"
proof -
  let ?sz = "(py_int (py_mul (width im) (py_truediv max_size (max (width im) (height im)))),
              py_int (py_mul (height im) (py_truediv max_size (max (width im) (height im)))))"
  from assms obtain im1 where "resize env im1 ?sz = Inr im'"
    by (cases "convert_if_needed env im") (auto simp: preprocess_image_eq split: sum.splits)
  then have "size_of im' = ?sz" by (rule resize_size)
  then show "int (width im') =
           py_int (py_mul (width im) (py_truediv max_size (max (width im) (height im))))"
    and "int (height im') =
           py_int (py_mul (height im) (py_truediv max_size (max (width im) (height im))))"
    by (simp_all add: size_of_def)
qed

lemma downsample_bounds:
  assumes M: "c < M" "d \<le> M" and bound: "c * M < 2 ^ 51"
  shows "py_int (py_mul d (py_truediv c M)) = int (d * c div M)
         \<or> (M dvd d * c \<and> py_int (py_mul d (py_truediv c M)) = int (d * c div M) - 1)"
    and "py_int (py_mul d (py_truediv c M)) \<le> int d"
    and "py_int (py_mul d (py_truediv c M)) \<le> int c"
proof -
  have M0: "0 < M" using M by simp
  show "py_int (py_mul d (py_truediv c M)) = int (d * c div M)
         \<or> (M dvd d * c \<and> py_int (py_mul d (py_truediv c M)) = int (d * c div M) - 1)"
    using M0 M(2) bound by (rule resized_floor)
  have r: "0 \<le> py_truediv c M" "py_truediv c M \<le> 1"
    using M(1) M0 by (simp_all add: py_truediv_le1)
  have both: "py_int (py_mul d (py_truediv c M)) \<le> int d
              \<and> py_int (py_mul d (py_truediv c M)) \<le> int c"
  proof (cases "c = 0")
    case True
    then show ?thesis by (simp add: py_mul_zero)
  next
    case False
    then have "M \<le> c * M" by simp
    then have M51: "M < 2 ^ 51" using bound by (rule le_less_trans)
    then have "d < 2 ^ 51" using M(2) by simp
    also have "\<dots> < (2::nat) ^ 53" by simp
    finally have 1: "py_int (py_mul d (py_truediv c M)) \<le> int d"
      using r by (rule resized_le_dim)
    have "c < 2 ^ 51" using M51 M(1) by simp
    also have "\<dots> < (2::nat) ^ 52" by simp
    finally have "py_int (py_mul M (py_truediv c M)) \<le> int c"
      using M(1) by (intro resized_max_le)
    moreover have "py_int (py_mul d (py_truediv c M)) \<le> py_int (py_mul M (py_truediv c M))"
      using r(1) M(2) by (rule py_mul_mono)
    ultimately have "py_int (py_mul d (py_truediv c M)) \<le> int c" by simp
    with 1 show ?thesis by simp
  qed
  then show "py_int (py_mul d (py_truediv c M)) \<le> int d"
    and "py_int (py_mul d (py_truediv c M)) \<le> int c"
    by simp_all
qed

subsection \<open>Accepted uploads\<close>

lemma file_size_check:
  assumes "n \<le> 50 * 1024 * 1024"
  shows "\<not> 50 < py_truediv n (1024 * 1024)"
proof -
  have "n < 2 ^ 53" using assms by simp
  then have "py_truediv n (1024 * 1024) = real n / (1024 * 1024)" by (rule file_size_exact)
  moreover have "real n \<le> 50 * 1024 * 1024" using assms by linarith
  ultimately show ?thesis by simp
qed

lemma read_upload_accepted:
  assumes "content_type up \<in> Some ` set allowed_types"
    and "length (contents up) \<le> 50 * 1024 * 1024"
  shows "read_upload env up =
           (case pil_open env (contents up) of
              Inl e \<Rightarrow> Inl (HTTPException 400 (''Invalid or corrupt image file: '' @ e))
            | Inr original \<Rightarrow>
                (case preprocess_image env original 4000 of
                   Inl e \<Rightarrow> Inl e
                 | Inr (img_for_processing, original_size) \<Rightarrow>
                     Inr (original, img_for_processing, original_size)))"
  using assms(1) file_size_check [OF assms(2)]
  by (simp add: read_upload_def Let_def)

lemma read_upload_png:
  "read_upload (example_env loader rm (Inr im)) png_upload =
     (case preprocess_image (example_env loader rm (Inr im)) im 4000 of
        Inl e \<Rightarrow> Inl e
      | Inr (img_for_processing, original_size) \<Rightarrow> Inr (im, img_for_processing, original_size))"
  by (subst read_upload_accepted) (simp_all add: png_upload_def allowed_types_def)

lemma postprocess_image_size:
  "postprocess_image env im original_size refine = Inr out \<Longrightarrow> size_of out = original_size"
  by (auto simp: postprocess_image_def refine_edges_def size_of_def
      split: sum.splits if_splits list.splits dest!: resize_size)

subsection \<open>The handlers once the upload is read\<close>

lemma to_http_HTTPException [simp]: "to_http (HTTPException c d) = HTTPException c d"
  by (simp add: to_http_def)

lemma remove_background_after_read:
  assumes "read_upload env up = Inr (orig, img, osz)"
  shows "remove_background env up p st =
     (case retry_json env p img (py_range max_retries)
             \<lparr>output_image = None, last_error = None\<rparr> st of
        (Inl e, st1) \<Rightarrow> (Inl (to_http e), st1)
      | (Inr v, st1) \<Rightarrow>
          (case output_image v of
             None \<Rightarrow>
               (Inl (HTTPException 500
                       (''Background removal failed after 2 attempts: ''
                          @ (case last_error v of None \<Rightarrow> ''None'' | Some e \<Rightarrow> e))), st1)
           | Some out \<Rightarrow>
               (case json_response env up orig out osz of
                  Inl e \<Rightarrow> (Inl (to_http e), st1)
                | Inr response \<Rightarrow> (Inr response, st1))))"
  using assms by (simp add: remove_background_def)

lemma remove_background_binary_after_read:
  assumes "read_upload env up = Inr (orig, img, osz)"
  shows "remove_background_binary env up p st =
     (case retry_binary env p img (py_range max_retries) None st of
        (Inl e, st1) \<Rightarrow> (Inl (to_http e), st1)
      | (Inr v, st1) \<Rightarrow>
          (case v of
             None \<Rightarrow>
               (Inl (HTTPException 500
                       ''Background removal failed after multiple attempts''), st1)
           | Some out \<Rightarrow>
               (case binary_response env up out osz of
                  Inl e \<Rightarrow> (Inl (to_http e), st1)
                | Inr response \<Rightarrow> (Inr response, st1))))"
  using assms by (simp add: remove_background_binary_def)

lemma json_response_success:
  assumes "postprocess_image env out osz True = Inr out'"
    and "pil_save env orig (original_format env up) = Inr original_data"
    and "pil_save env out' ''PNG'' = Inr output_data"
  shows "json_response env up orig out osz =
           Inr \<lparr>success = True,
                original_image =
                  \<lparr>image_data = original_data, image_format = original_format env up,
                   image_size = size_of orig\<rparr>,
                processed_image =
                  \<lparr>image_data = output_data, image_format = ''PNG'', image_size = size_of out'\<rparr>,
                message = ''Background removed successfully''\<rparr>"
  using assms by (simp add: json_response_def)

lemma binary_response_success:
  assumes "postprocess_image env out osz True = Inr out'"
    and "pil_save env out' ''PNG'' = Inr output_data"
    and "filename up = Some name"
    and "latin_1 (codepoints ''attachment; filename=no_bg_'' @ rsplit_stem name
                    @ codepoints ''.png'')"
  shows "binary_response env up out osz =
           Inr \<lparr>body = output_data, media_type = ''image/png'',
                content_disposition =
                  codepoints ''attachment; filename=no_bg_'' @ rsplit_stem name
                    @ codepoints ''.png''\<rparr>"
  using assms by (simp add: binary_response_def)



subsection \<open>The examples\<close>

lemma read_upload_photo:
  "read_upload (example_env loader rm (Inr photo)) png_upload = Inr (photo, photo, (2, 2))"
  by (simp add: read_upload_png preprocess_image_eq convert_if_needed_def size_of_def photo_def)

lemma postprocess_image_opaque:
  "postprocess_image (example_env loader rm decoded) opaque (2, 2) True = Inr opaque"
  by (simp add: postprocess_image_def refine_edges_def size_of_def opaque_def)

lemma filename_png_upload: "filename png_upload = Some (codepoints ''photo.png'')"
  by (simp add: png_upload_def)

lemma header_photo:
  "codepoints ''attachment; filename=no_bg_'' @ rsplit_stem (codepoints ''photo.png'')
     @ codepoints ''.png'' = codepoints ''attachment; filename=no_bg_photo.png''"
  by (simp add: rsplit_stem_def codepoints_def)

lemma latin_1_codepoints: "latin_1 (codepoints s)"
  by (induction s) (simp_all add: latin_1_def codepoints_def)

lemma json_response_opaque:
  "json_response (example_env loader rm decoded) png_upload photo opaque (2, 2) =
     Inr \<lparr>success = True,
          original_image =
            \<lparr>image_data = concat (bands photo), image_format = ''PNG'', image_size = (2, 2)\<rparr>,
          processed_image =
            \<lparr>image_data = concat (bands opaque), image_format = ''PNG'', image_size = (2, 2)\<rparr>,
          message = ''Background removed successfully''\<rparr>"
proof -
  have "original_format (example_env loader rm decoded) png_upload = ''PNG''"
    by (simp add: original_format_def)
  moreover have "size_of photo = (2, 2)" "size_of opaque = (2, 2)"
    by (simp_all add: size_of_def photo_def opaque_def)
  ultimately show ?thesis
    using json_response_success [of "example_env loader rm decoded" opaque "(2, 2)" opaque
        photo png_upload "concat (bands photo)" "concat (bands opaque)"]
    by (simp add: postprocess_image_opaque)
qed

lemma binary_response_opaque:
  "binary_response (example_env loader rm decoded) png_upload opaque (2, 2) =
     Inr \<lparr>body = concat (bands opaque), media_type = ''image/png'',
          content_disposition = codepoints ''attachment; filename=no_bg_photo.png''\<rparr>"
  using binary_response_success [of "example_env loader rm decoded" opaque "(2, 2)" opaque
      "concat (bands opaque)" png_upload "codepoints ''photo.png''"]
  by (simp add: postprocess_image_opaque filename_png_upload header_photo latin_1_codepoints)


section \<open>The properties of the specification\<close>

text \<open>
  Claim C9 (content-type gate). On both POST endpoints an upload whose content type is one of
  \<^verbatim>\<open>image/png\<close>, \<^verbatim>\<open>image/jpeg\<close>, \<^verbatim>\<open>image/jpg\<close>, \<^verbatim>\<open>image/webp\<close> is never answered
  with the invalid-file-type error, so it passes the type check; an upload with any other
  content type (or none) is answered with that error and nothing else happens; the error is
  an HTTP 400 whose detail lists the four allowed types.
\<close>

theorem content_type_gate:
  "(content_type up \<in> {Some ''image/png'', Some ''image/jpeg'', Some ''image/jpg'',
                         Some ''image/webp''}
      \<longrightarrow> fst (remove_background env up p st) \<noteq> Inl invalid_type
        \<and> fst (remove_background_binary env up p st) \<noteq> Inl invalid_type)
   \<and> (content_type up \<notin> {Some ''image/png'', Some ''image/jpeg'', Some ''image/jpg'',
                           Some ''image/webp''}
      \<longrightarrow> remove_background env up p st = (Inl invalid_type, st)
        \<and> remove_background_binary env up p st = (Inl invalid_type, st))
   \<and> invalid_type =
       HTTPException 400
         ''Invalid file type. Allowed types: image/png, image/jpeg, image/jpg, image/webp''"
proof -
  have set: "Some ` set allowed_types =
      {Some ''image/png'', Some ''image/jpeg'', Some ''image/jpg'', Some ''image/webp''}"
    by (simp add: allowed_types_def)
  have rej: "remove_background env up p st = (Inl invalid_type, st)
             \<and> remove_background_binary env up p st = (Inl invalid_type, st)"
    if "content_type up \<notin> Some ` set allowed_types"
  proof -
    from that have "read_upload env up = Inl invalid_type"
      by (simp add: read_upload_invalid_type)
    then show ?thesis
      by (simp add: remove_background_def remove_background_binary_def to_http_invalid_type)
  qed
  show ?thesis
    using remove_background_invalid_type [of env up p st]
      remove_background_binary_invalid_type [of env up p st] rej invalid_type_eq
    unfolding set by blast
qed

text \<open>The statement above at a PNG upload and at a plain-text upload.\<close>

theorem content_type_gate_witness:
  "fst (remove_background (steady_env (Inr photo))
          png_upload default_params fresh) \<noteq> Inl invalid_type
   \<and> remove_background_binary (steady_env (Inr photo))
        (png_upload\<lparr>content_type := Some ''text/plain''\<rparr>) default_params fresh
      = (Inl invalid_type, fresh)"
  using content_type_gate [of png_upload
          "steady_env (Inr photo)" default_params fresh]
        content_type_gate [of "png_upload\<lparr>content_type := Some ''text/plain''\<rparr>"
          "steady_env (Inr photo)" default_params fresh]
  by (simp add: png_upload_def)

text \<open>
  Claim C5 (the validator never raises). For every input \<^verbatim>\<open>validate_result\<close> returns a
  boolean, and whenever one of its checks raises, the value returned is \<open>True\<close>.
\<close>

theorem validator_never_raises:
  "(\<exists>ok. validate_result original processed = Inr ok)
   \<and> (validate_checks processed = Inl e \<longrightarrow> validate_result original processed = Inr True)"
  by (cases "validate_checks processed") (auto simp: validate_result_def)

text \<open>The statement above at an RGBA result whose bands cannot be read.\<close>

theorem validator_never_raises_witness:
  "validate_checks (cutout\<lparr>bands := []\<rparr>) = Inl ''tuple index out of range''
   \<and> validate_result photo (cutout\<lparr>bands := []\<rparr>) = Inr True"
  using validator_never_raises [of photo "cutout\<lparr>bands := []\<rparr>" "''tuple index out of range''"]
  by (simp add: validate_checks_def cutout_def)

text \<open>
  Claim C7 (frame property of the refine step). Let \<open>im1\<close> be what
  \<^verbatim>\<open>postprocess_image\<close> returns without refinement. With \<^verbatim>\<open>refine\<close> set and \<open>im1\<close> an
  RGBA image with bands \<open>r, g, b, a\<close>, the result has the same size and mode, the bands
  \<open>r, g, b\<close> unchanged and the alpha band blurred with radius 0.5; when \<open>im1\<close> is not
  RGBA, the result is \<open>im1\<close> itself.
\<close>

theorem refine_frame:
  "postprocess_image env im original_size False = Inr im1 \<longrightarrow>
     (mode im1 = ''RGBA'' \<and> bands im1 = [r, g, b, a] \<longrightarrow>
        (\<exists>out. postprocess_image env im original_size True = Inr out
               \<and> bands out = [r, g, b, gaussian_blur env (1/2) a]
               \<and> mode out = ''RGBA'' \<and> size_of out = size_of im1))
     \<and> (mode im1 \<noteq> ''RGBA'' \<longrightarrow> postprocess_image env im original_size True = Inr im1)"
  by (auto simp: postprocess_image_def refine_edges_def size_of_def split: sum.splits if_splits)

text \<open>The statement above at the cut-out and at the photo, which has no alpha band.\<close>

theorem refine_frame_witness:
  "postprocess_image (steady_env (Inr photo))
       cutout (2, 2) False = Inr cutout
   \<and> (\<exists>out. postprocess_image (steady_env (Inr photo))
               cutout (2, 2) True = Inr out
            \<and> bands out = [ [10, 20, 30, 40], [10, 20, 30, 40], [10, 20, 30, 40], [0, 255, 255, 0] ])
   \<and> postprocess_image (steady_env (Inr photo))
       photo (2, 2) True = Inr photo"
  using refine_frame [of "steady_env (Inr photo)"
          cutout "(2, 2)" cutout "[10, 20, 30, 40]" "[10, 20, 30, 40]" "[10, 20, 30, 40]"
          "[0, 255, 255, 0]"]
        refine_frame [of "steady_env (Inr photo)"
          photo "(2, 2)" photo]
  by (simp add: postprocess_image_def refine_edges_def size_of_def cutout_def photo_def
      steady_env_def)




text \<open>
  Claim C6 (session-cache invariant). The cache is a map, so an identifier has at most one
  session. A call of \<^verbatim>\<open>get_model_session\<close> for an identifier that is not cached, whose
  load succeeds, stores the handle and loads once. After a call that returned a handle,
  whatever the process does next (further calls for any identifier, requests to either
  endpoint), a call for the same identifier returns that handle and leaves the state as it
  is, and the identifier is not loaded again. And an entry, once there, stays there with
  the same handle.
\<close>

theorem session_cache_invariant:
  "(MODEL_SESSIONS st m = None \<and> rembg_new_session env (trace st) m = Inr s \<longrightarrow>
      get_model_session env m st =
        (Inr s, st\<lparr>MODEL_SESSIONS := (MODEL_SESSIONS st)(m \<mapsto> s),
                    trace := trace st @ [Load m]\<rparr>))
   \<and> (fst (get_model_session env m st) = Inr s \<longrightarrow>
        (let st1 = snd (get_model_session env m st); st2 = run env acts st1
         in MODEL_SESSIONS st1 m = Some s
            \<and> get_model_session env m st2 = (Inr s, st2)
            \<and> m \<notin> set (loads (new_events st1 st2))))
   \<and> (MODEL_SESSIONS st k = Some h \<longrightarrow> MODEL_SESSIONS (run env acts st) k = Some h)"
proof (intro conjI impI)
  assume "MODEL_SESSIONS st m = None \<and> rembg_new_session env (trace st) m = Inr s"
  then show "get_model_session env m st =
        (Inr s, st\<lparr>MODEL_SESSIONS := (MODEL_SESSIONS st)(m \<mapsto> s),
                    trace := trace st @ [Load m]\<rparr>)"
    by (simp add: get_model_session_miss)
next
  assume ok: "fst (get_model_session env m st) = Inr s"
  define st1 where "st1 = snd (get_model_session env m st)"
  define st2 where "st2 = run env acts st1"
  from ok have "get_model_session env m st = (Inr s, st1)"
    by (simp add: st1_def prod_eq_iff)
  then have c1: "MODEL_SESSIONS st1 m = Some s" by (rule get_model_session_cached)
  have l: "later st1 st2" unfolding st2_def by (rule run_later)
  from later_cached [OF l c1] have c2: "MODEL_SESSIONS st2 m = Some s"
    and n: "m \<notin> set (loads (new_events st1 st2))" by simp_all
  from c2 have "get_model_session env m st2 = (Inr s, st2)" by (rule get_model_session_hit)
  with c1 n show "let st1 = snd (get_model_session env m st); st2 = run env acts st1
         in MODEL_SESSIONS st1 m = Some s
            \<and> get_model_session env m st2 = (Inr s, st2)
            \<and> m \<notin> set (loads (new_events st1 st2))"
    by (simp add: st1_def st2_def Let_def)
next
  assume "MODEL_SESSIONS st k = Some h"
  with run_later [of st env acts] show "MODEL_SESSIONS (run env acts st) k = Some h"
    by (rule later_cached(1))
qed

text \<open>
  The statement above at a concrete input: a first load of \<^verbatim>\<open>u2net\<close>, then two requests
  and a call for another model.
\<close>

theorem session_cache_invariant_witness:
  "get_model_session (steady_env (Inr photo)) ''u2net'' fresh
     = (Inr 1, fresh\<lparr>MODEL_SESSIONS := [''u2net'' \<mapsto> 1], trace := [Load ''u2net'']\<rparr>)
   \<and> get_model_session (steady_env (Inr photo)) ''u2net''
         (run (steady_env (Inr photo))
            [PostJson png_upload default_params, GetSession ''isnet-anime'',
             PostBinary png_upload (default_params\<lparr>model := ''u2net''\<rparr>)]
            (fresh\<lparr>MODEL_SESSIONS := [''u2net'' \<mapsto> 1], trace := [Load ''u2net'']\<rparr>))
       = (Inr 1,
          run (steady_env (Inr photo))
            [PostJson png_upload default_params, GetSession ''isnet-anime'',
             PostBinary png_upload (default_params\<lparr>model := ''u2net''\<rparr>)]
            (fresh\<lparr>MODEL_SESSIONS := [''u2net'' \<mapsto> 1], trace := [Load ''u2net'']\<rparr>))
   \<and> MODEL_SESSIONS
         (run (steady_env (Inr photo))
            [PostJson png_upload default_params, GetSession ''isnet-anime'',
             PostBinary png_upload (default_params\<lparr>model := ''u2net''\<rparr>)]
            (fresh\<lparr>MODEL_SESSIONS := [''u2net'' \<mapsto> 1], trace := [Load ''u2net'']\<rparr>))
         ''u2net'' = Some 1"
proof -
  let ?E = "steady_env (Inr photo)"
  let ?acts = "[PostJson png_upload default_params, GetSession ''isnet-anime'',
                PostBinary png_upload (default_params\<lparr>model := ''u2net''\<rparr>)]"
  let ?loaded = "fresh\<lparr>MODEL_SESSIONS := [''u2net'' \<mapsto> 1], trace := [Load ''u2net'']\<rparr>"
  note inv = session_cache_invariant [of fresh "''u2net''" ?E 1 ?acts]
  have g: "get_model_session ?E ''u2net'' fresh = (Inr 1, ?loaded)"
    using inv by (simp add: fresh_def steady_env_def)
  have "get_model_session ?E ''u2net'' (run ?E ?acts ?loaded) = (Inr 1, run ?E ?acts ?loaded)"
    using inv by (simp only: g fst_conv snd_conv Let_def)
  moreover have "MODEL_SESSIONS (run ?E ?acts ?loaded) ''u2net'' = Some 1"
    using session_cache_invariant [where st = ?loaded and acts = ?acts and k = "''u2net''"
        and h = 1 and env = ?E]
    by (simp add: fresh_def del: run.simps)
  ultimately show ?thesis using g by simp
qed

text \<open>
  Claim C4 (validator decision rule). For a result image, which if RGBA has its four bands
  and fewer than \<open>2 ^ 47\<close> pixels, \<^verbatim>\<open>validate_result\<close> returns false when the mode is not
  RGBA; otherwise false when the alpha band takes fewer than two distinct values; otherwise
  false when the fraction of pixels with alpha below 10 is strictly greater than 95%; and
  true otherwise.
\<close>

theorem validator_decision_rule:
  "(mode p = ''RGBA'' \<longrightarrow> 3 < length (bands p) \<and> length (bands p ! 3) < 2 ^ 47) \<longrightarrow>
   validate_result original p =
     Inr (if mode p \<noteq> ''RGBA'' then False
          else if card (set (bands p ! 3)) < 2 then False
          else if 95 / 100 < real (length (filter (\<lambda>a. a < 10) (bands p ! 3)))
                               / real (length (bands p ! 3)) then False
          else True)"
  using validate_result_rule [of p original] by blast

text \<open>
  The statement above at four results: a photo without alpha, an all-opaque result, a
  result that is 20/21 transparent, and a proper cut-out.
\<close>

theorem validator_decision_rule_witness:
  "validate_result photo photo = Inr False
   \<and> validate_result photo opaque = Inr False
   \<and> validate_result photo washed_out = Inr False
   \<and> validate_result photo cutout = Inr True"
proof -
  have 1: "validate_result photo photo = Inr False"
    using validator_decision_rule [of photo photo] by (simp add: photo_def)
  have 2: "validate_result photo opaque = Inr False"
    using validator_decision_rule [of opaque photo] by (simp add: opaque_def)
  have "card (set [0, 0, 0, 0, 0, 0, 0, 0, 0, 0, 0, 0, 0, 0, 0, 0, 0, 0, 0, 0, 255::nat]) = 2"
    by (subst length_remdups_card_conv [symmetric]) simp
  then have 3: "validate_result photo washed_out = Inr False"
    using validator_decision_rule [of washed_out photo] by (simp add: washed_out_def)
  have "card (set [0, 255, 255, 0::nat]) = 2"
    by (subst length_remdups_card_conv [symmetric]) simp
  then have 4: "validate_result photo cutout = Inr True"
    using validator_decision_rule [of cutout photo] by (simp add: cutout_def)
  from 1 2 3 4 show ?thesis by simp
qed

text \<open>
  Claim C10, as amended. Whenever \<^verbatim>\<open>preprocess_image\<close> returns, for an image and a
  \<^verbatim>\<open>max_size\<close> whose product \<open>max_size * max(width, height)\<close> is below \<open>2 ^ 51\<close>: the
  dimensions are unchanged when \<open>max(width, height) \<le> max_size\<close>; otherwise each output
  dimension is \<^verbatim>\<open>int(dim * ratio)\<close> computed in double precision, which is
  \<open>floor(dim * max_size / max(width, height))\<close> or, only when that quotient is a whole
  number, one less; every output dimension is at most the corresponding input dimension
  and at most \<^verbatim>\<open>max_size\<close>.
\<close>

theorem downsample_dimensions:
  "preprocess_image env im max_size = Inr (im', original_size)
   \<and> max_size * max (width im) (height im) < 2 ^ 51 \<longrightarrow>
     (max (width im) (height im) \<le> max_size \<longrightarrow> size_of im' = size_of im)
     \<and> (max_size < max (width im) (height im) \<longrightarrow>
          int (width im') =
            py_int (py_mul (width im) (py_truediv max_size (max (width im) (height im))))
          \<and> int (height im') =
            py_int (py_mul (height im) (py_truediv max_size (max (width im) (height im))))
          \<and> (width im' = width im * max_size div max (width im) (height im)
               \<or> (max (width im) (height im) dvd width im * max_size
                   \<and> width im' + 1 = width im * max_size div max (width im) (height im)))
          \<and> (height im' = height im * max_size div max (width im) (height im)
               \<or> (max (width im) (height im) dvd height im * max_size
                   \<and> height im' + 1 = height im * max_size div max (width im) (height im)))
          \<and> width im' \<le> width im \<and> height im' \<le> height im
          \<and> max (width im') (height im') \<le> max_size)"
proof (intro impI conjI; elim conjE)
  assume ok: "preprocess_image env im max_size = Inr (im', original_size)"
  assume "max (width im) (height im) \<le> max_size"
  with ok show "size_of im' = size_of im" by (rule preprocess_image_small)
next
  let ?M = "max (width im) (height im)"
  assume ok: "preprocess_image env im max_size = Inr (im', original_size)"
    and bound: "max_size * ?M < 2 ^ 51" and big: "max_size < ?M"
  note w = preprocess_image_large(1) [OF ok big]
  note h = preprocess_image_large(2) [OF ok big]
  have wM: "width im \<le> ?M" and hM: "height im \<le> ?M" by simp_all
  note bw = downsample_bounds [OF big wM bound]
  note bh = downsample_bounds [OF big hM bound]
  show "int (width im') = py_int (py_mul (width im) (py_truediv max_size ?M))" by (rule w)
  show "int (height im') = py_int (py_mul (height im) (py_truediv max_size ?M))" by (rule h)
  show "width im' = width im * max_size div ?M
        \<or> (?M dvd width im * max_size \<and> width im' + 1 = width im * max_size div ?M)"
    using bw(1) unfolding w [symmetric] by linarith
  show "height im' = height im * max_size div ?M
        \<or> (?M dvd height im * max_size \<and> height im' + 1 = height im * max_size div ?M)"
    using bh(1) unfolding h [symmetric] by linarith
  show "width im' \<le> width im" using bw(2) unfolding w [symmetric] by simp
  show "height im' \<le> height im" using bh(2) unfolding h [symmetric] by simp
  show "max (width im') (height im') \<le> max_size"
    using bw(3) bh(3) unfolding w [symmetric] h [symmetric] by simp
qed

text \<open>
  The statement above at the 4500x3000 image of the specification, which comes out at
  4000x2666, and at a 2x2 image, which is left alone.
\<close>

theorem downsample_dimensions_witness:
  "preprocess_image (steady_env (Inr photo)) (blank 4500 3000) 4000
     = Inr ((blank 4500 3000)\<lparr>width := 4000, height := 2666\<rparr>, (4500, 3000))
   \<and> (4000::nat) * max 4500 3000 < 2 ^ 51
   \<and> (4500::nat) * 4000 div max 4500 3000 = 4000
   \<and> (3000::nat) * 4000 div max 4500 3000 = 2666
   \<and> preprocess_image (steady_env (Inr photo)) photo 4000 = Inr (photo, (2, 2))"
proof -
  let ?E = "steady_env (Inr photo)"
  have big: "preprocess_image ?E (blank 4500 3000) 4000
     = Inr ((blank 4500 3000)\<lparr>width := 4000, height := 2666\<rparr>, (4500, 3000))"
    by (simp add: preprocess_image_eq convert_if_needed_def resize_def size_of_def
        downsample_4500 steady_env_def)
  have small: "preprocess_image ?E photo 4000 = Inr (photo, (2, 2))"
    by (simp add: preprocess_image_eq convert_if_needed_def size_of_def photo_def)
  from downsample_dimensions [of ?E "blank 4500 3000" 4000
        "(blank 4500 3000)\<lparr>width := 4000, height := 2666\<rparr>" "(4500, 3000)"]
    downsample_dimensions [of ?E photo 4000 photo "(2, 2)"] big small
  show ?thesis by simp
qed

text \<open>
  Claim C10 as stated fails: a 4210x4210 image is downsampled to 3999x3999, although
  \<open>floor(4210 * 4000 / 4210) = 4000\<close>. The double nearest to 4000/4210 lies below it, and
  so does its product with 4210.
\<close>

theorem downsample_floor_counterexample:
  "preprocess_image (steady_env (Inr photo)) (blank 4210 4210) 4000
     = Inr ((blank 4210 4210)\<lparr>width := 3999, height := 3999\<rparr>, (4210, 4210))
   \<and> (4210::nat) * 4000 div max 4210 4210 = 4000"
  by (simp add: preprocess_image_eq convert_if_needed_def resize_def size_of_def
      downsample_4210 steady_env_def)

text \<open>
  Claim C3 fails on the code for images with a thin side. For a well-formed 4001x1 image
  \<^verbatim>\<open>new_size\<close> is \<open>(4000, 0)\<close>, \<^verbatim>\<open>image.resize\<close> raises, nothing is handed to
  \<^verbatim>\<open>postprocess_image\<close>, and the request is answered with HTTP 500.
\<close>

theorem thin_image_not_recovered:
  "preprocess_image env (blank 4001 1) 4000 = Inl (Error ''height and width must be > 0'')
   \<and> fst (remove_background (steady_env (Inr (blank 4001 1))) png_upload default_params fresh)
       = Inl (HTTPException 500 ''Error processing image: height and width must be > 0'')
   \<and> fst (remove_background_binary (steady_env (Inr (blank 4001 1))) png_upload default_params
            fresh)
       = Inl (HTTPException 500 ''Error processing image: height and width must be > 0'')"
proof -
  have pre: "preprocess_image env (blank 4001 (Suc 0)) 4000
               = Inl (Error ''height and width must be > 0'')" for env
    by (simp add: preprocess_image_eq convert_if_needed_def resize_def size_of_def
        downsample_4001 downsample_4001_thin)
  have "read_upload (steady_env (Inr (blank 4001 1))) png_upload
          = Inl (Error ''height and width must be > 0'')"
    by (simp add: read_upload_png pre steady_env_def)
  then show ?thesis
    by (simp add: pre remove_background_def remove_background_binary_def to_http_def)
qed




text \<open>
  Claim C1 fails on the code when the last attempt returns a result that does not
  validate. Here the library returns an all-opaque image on every call. Both attempts fail
  \<^verbatim>\<open>validate_result\<close>; the JSON handler sets \<^verbatim>\<open>last_error\<close> to
  \<^verbatim>\<open>"Result validation failed"\<close>, but \<^verbatim>\<open>output_image\<close> is already assigned, so the
  \<^verbatim>\<open>output_image is None\<close> error is not raised: no call without a session follows, and
  both endpoints answer with a success carrying the rejected image.
\<close>

theorem invalid_result_returned_as_success:
  "validate_result photo opaque = Inr False
   \<and> remove_background (opaque_env (Inr photo)) png_upload default_params fresh
     = (Inr \<lparr>success = True,
             original_image =
               \<lparr>image_data = concat (bands photo), image_format = ''PNG'',
                image_size = (2, 2)\<rparr>,
             processed_image =
               \<lparr>image_data = concat (bands opaque), image_format = ''PNG'',
                image_size = (2, 2)\<rparr>,
             message = ''Background removed successfully''\<rparr>,
        \<lparr>MODEL_SESSIONS = [''isnet-general-use'' \<mapsto> 1],
         trace = [Load ''isnet-general-use'', Infer (Some 1), Validate opaque,
                  Infer (Some 1), Validate opaque]\<rparr>)
   \<and> remove_background_binary (opaque_env (Inr photo)) png_upload default_params fresh
     = (Inr \<lparr>body = concat (bands opaque), media_type = ''image/png'',
             content_disposition = codepoints ''attachment; filename=no_bg_photo.png''\<rparr>,
        \<lparr>MODEL_SESSIONS = [''isnet-general-use'' \<mapsto> 1],
         trace = [Load ''isnet-general-use'', Infer (Some 1), Validate opaque,
                  Infer (Some 1), Validate opaque]\<rparr>)
   \<and> primary_calls [Load ''isnet-general-use'', Infer (Some 1), Validate opaque,
                     Infer (Some 1), Validate opaque] = 2
   \<and> fallback_calls [Load ''isnet-general-use'', Infer (Some 1), Validate opaque,
                      Infer (Some 1), Validate opaque] = 0"
proof -
  let ?E = "opaque_env (Inr photo)"
  let ?m = "''isnet-general-use''"
  let ?v0 = "\<lparr>output_image = None, last_error = None\<rparr>"
  let ?v1 = "\<lparr>output_image = Some opaque, last_error = Some ''Result validation failed''\<rparr>"
  let ?s1 = "\<lparr>MODEL_SESSIONS = [?m \<mapsto> 1], trace = [Load ?m, Infer (Some 1), Validate opaque]\<rparr>"
  let ?s2 = "\<lparr>MODEL_SESSIONS = [?m \<mapsto> 1],
              trace = [Load ?m, Infer (Some 1), Validate opaque, Infer (Some 1), Validate opaque]\<rparr>"
  have read: "read_upload ?E png_upload = Inr (photo, photo, (2, 2))"
    by (simp add: opaque_env_def read_upload_photo)
  have j1: "try_body_json ?E default_params photo ?v0 fresh = (Inr Continue, ?v1, ?s1)"
    by (simp add: try_body_json_def get_model_session_def call_remove_def record_event_def
        opaque_env_def default_params_def fresh_def)
  have j2: "try_body_json ?E default_params photo
              (case Inr Continue of Inl e \<Rightarrow> ?v1\<lparr>last_error := Some e\<rparr> | Inr (c::ctl) \<Rightarrow> ?v1)
              ?s1 = (Inr Continue, ?v1, ?s2)"
    by (simp add: try_body_json_def get_model_session_def call_remove_def record_event_def
        opaque_env_def default_params_def)
  have b1: "try_body_binary ?E default_params photo None fresh = (Inr Continue, Some opaque, ?s1)"
    by (simp add: try_body_binary_def get_model_session_def call_remove_def record_event_def
        opaque_env_def default_params_def fresh_def)
  have b2: "try_body_binary ?E default_params photo (Some opaque) ?s1
              = (Inr Continue, Some opaque, ?s2)"
    by (simp add: try_body_binary_def get_model_session_def call_remove_def record_event_def
        opaque_env_def default_params_def)
  obtain rf st3 where fb: "call_remove ?E photo None default_params ?s2 = (rf, st3)"
    by (cases "call_remove ?E photo None default_params ?s2")
  have jr: "json_response ?E png_upload photo opaque (2, 2) =
     Inr \<lparr>success = True,
          original_image =
            \<lparr>image_data = concat (bands photo), image_format = ''PNG'', image_size = (2, 2)\<rparr>,
          processed_image =
            \<lparr>image_data = concat (bands opaque), image_format = ''PNG'', image_size = (2, 2)\<rparr>,
          message = ''Background removed successfully''\<rparr>"
    by (simp add: opaque_env_def json_response_opaque)
  have br: "binary_response ?E png_upload opaque (2, 2) =
     Inr \<lparr>body = concat (bands opaque), media_type = ''image/png'',
          content_disposition = codepoints ''attachment; filename=no_bg_photo.png''\<rparr>"
    by (simp add: opaque_env_def binary_response_opaque)
  have "retry_json ?E default_params photo (py_range max_retries) ?v0 fresh = (Inr ?v1, ?s2)"
    using retry_json_two [OF j1 j2 fb] by simp
  then have json: "remove_background ?E png_upload default_params fresh
     = (Inr \<lparr>success = True,
             original_image =
               \<lparr>image_data = concat (bands photo), image_format = ''PNG'',
                image_size = (2, 2)\<rparr>,
             processed_image =
               \<lparr>image_data = concat (bands opaque), image_format = ''PNG'',
                image_size = (2, 2)\<rparr>,
             message = ''Background removed successfully''\<rparr>, ?s2)"
    by (simp add: remove_background_after_read [OF read] jr)
  have "retry_binary ?E default_params photo (py_range max_retries) None fresh
          = (Inr (Some opaque), ?s2)"
    using retry_binary_two [OF b1 b2 fb] by simp
  then have binary: "remove_background_binary ?E png_upload default_params fresh
     = (Inr \<lparr>body = concat (bands opaque), media_type = ''image/png'',
             content_disposition = codepoints ''attachment; filename=no_bg_photo.png''\<rparr>, ?s2)"
    by (simp add: remove_background_binary_after_read [OF read] br)
  have "primary_calls [Load ?m, Infer (Some 1), Validate opaque, Infer (Some 1), Validate opaque]
          = 2"
    and "fallback_calls [Load ?m, Infer (Some 1), Validate opaque, Infer (Some 1), Validate opaque]
          = 0"
    by (simp_all add: primary_calls_def fallback_calls_def)
  with json binary show ?thesis by simp
qed

end
